theory Spec2Isabelle
  imports Complex_Main "HOL-Library.AList" "HOL-Library.Log_Nat"
begin

section \<open>Floating-point arithmetic\<close>

text \<open>
  The durations and totals of the monitor are Python floats: IEEE 754 binary64 numbers.
  A finite float is a rational number, and every arithmetic operation on floats
  returns the exact result rounded to the nearest float, ties to the even significand.
  \<open>float_round\<close> is that rounding: the exponent \<open>e\<close> of a positive number lies between
  \<open>2 powi e\<close> and \<open>2 powi (e + 1)\<close>, the floats near it are the multiples of
  \<open>2 powi (e - 52)\<close> (of \<open>2 powi (- 1074)\<close> below the normal range), and the number is
  rounded to the nearest of them. Infinities and NaN are not modelled: no operation
  below is taken beyond the range of the finite floats.
\<close>

definition round_half_even :: "rat \<Rightarrow> int" where
  "round_half_even r =
     (let f = \<lfloor>r\<rfloor>; d = r - of_int f
      in if d < 1 / 2 then f else if 1 / 2 < d then f + 1 else if even f then f else f + 1)"

definition exponent :: "rat \<Rightarrow> int" where
  "exponent x = (if 1 \<le> x then bitlen \<lfloor>x\<rfloor> - 1 else - bitlen (\<lceil>1 / x\<rceil> - 1))"

definition ulp :: "rat \<Rightarrow> rat" where
  "ulp x = 2 powi (max (exponent \<bar>x\<bar>) (- 1022) - 52)"

definition round_to :: "rat \<Rightarrow> rat \<Rightarrow> rat" where
  "round_to u x = of_int (round_half_even (x / u)) * u"

definition float_round :: "rat \<Rightarrow> rat" where
  "float_round x = (if x = 0 then 0 else round_to (ulp x) x)"

text \<open>Python's \<^verbatim>\<open>+\<close>, \<^verbatim>\<open>-\<close>, \<^verbatim>\<open>*\<close> and \<^verbatim>\<open>/\<close> where an operand is a float.\<close>

definition float_add :: "rat \<Rightarrow> rat \<Rightarrow> rat" where
  "float_add a b = float_round (a + b)"

definition float_sub :: "rat \<Rightarrow> rat \<Rightarrow> rat" where
  "float_sub a b = float_round (a - b)"

definition float_mul :: "rat \<Rightarrow> rat \<Rightarrow> rat" where
  "float_mul a b = float_round (a * b)"

definition float_div :: "rat \<Rightarrow> rat \<Rightarrow> rat" where
  "float_div a b = float_round (a / b)"

section \<open>Time, dictionaries and truthiness\<close>

text \<open>
  A Python \<^verbatim>\<open>datetime\<close> has microsecond resolution: an instant is the number of
  microseconds on the local clock and \<^verbatim>\<open>.date()\<close> is its day number. The difference
  of two instants is a \<^verbatim>\<open>timedelta\<close>, a whole number of microseconds;
  \<^verbatim>\<open>.total_seconds()\<close> divides it by 10**6 into a float, and \<^verbatim>\<open>/ 60\<close> divides that
  float again: two roundings.
\<close>

type_synonym instant = int
type_synonym date = int

definition date_of :: "instant \<Rightarrow> date" where
  "date_of t = t div 86400000000"

definition total_seconds :: "int \<Rightarrow> rat" where
  "total_seconds microseconds = float_div (of_int microseconds) 1000000"

definition minutes_between :: "instant \<Rightarrow> instant \<Rightarrow> rat" where
  "minutes_between later earlier = float_div (total_seconds (later - earlier)) 60"

text \<open>
  A \<^verbatim>\<open>dict\<close> keeps its keys in insertion order: it is an association list, read
  with \<^const>\<open>map_of\<close> and written with \<^const>\<open>AList.update\<close> (which overwrites a
  key where it stands and appends a new key at the end). \<^verbatim>\<open>d.get(k, default)\<close>:
\<close>

definition dict_get :: "('k \<times> 'v) list \<Rightarrow> 'k \<Rightarrow> 'v \<Rightarrow> 'v" where
  "dict_get d k dflt = (case map_of d k of None \<Rightarrow> dflt | Some v \<Rightarrow> v)"

text \<open>
  The truth value of an \<^verbatim>\<open>Optional[str]\<close>: \<^verbatim>\<open>None\<close> and the empty string are
  false. \<^verbatim>\<open>shown\<close> is what an f-string prints for it.
\<close>

definition truthy :: "string option \<Rightarrow> bool" where
  "truthy x = (case x of None \<Rightarrow> False | Some s \<Rightarrow> s \<noteq> [])"

definition shown :: "string option \<Rightarrow> string" where
  "shown x = (case x of None \<Rightarrow> ''None'' | Some s \<Rightarrow> s)"

datatype py_error = KeyError

section \<open>Configuration (monitor.py, load_config)\<close>

text \<open>
  One entry of \<^verbatim>\<open>tracked_sites\<close>. The two numbers are read with
  \<^verbatim>\<open>site_config["daily_limit"]\<close> and \<^verbatim>\<open>site_config["nudge_interval"]\<close>;
  \<^verbatim>\<open>hard_block\<close> is read with \<^verbatim>\<open>.get("hard_block", False)\<close>, so it may be absent. The
  numbers of a JSON file are ints or floats; in arithmetic with a float an int is
  converted first, which is exact for the ints below 2 ^ 53.
\<close>

record site_config =
  daily_limit :: rat
  nudge_interval :: rat
  hard_block :: "bool option"

record work_hours =
  enabled :: bool
  start :: string
  finish :: string
  stricter_limits :: bool

text \<open>
  The parsed JSON file. \<^verbatim>\<open>config["tracked_sites"]\<close> raises \<^verbatim>\<open>KeyError\<close> when the key
  is missing, so the key is optional in the model.
\<close>

record config =
  tracked_sites_key :: "(string \<times> site_config) list option"
  work_hours_key :: "work_hours option"

definition default_sites :: "(string \<times> site_config) list" where
  "default_sites =
     [(''youtube.com'', \<lparr>daily_limit = 60, nudge_interval = 15, hard_block = Some False\<rparr>),
      (''reddit.com'', \<lparr>daily_limit = 30, nudge_interval = 10, hard_block = Some False\<rparr>),
      (''twitter.com'', \<lparr>daily_limit = 30, nudge_interval = 10, hard_block = Some False\<rparr>),
      (''facebook.com'', \<lparr>daily_limit = 30, nudge_interval = 10, hard_block = Some False\<rparr>)]"

definition default_config :: config where
  "default_config =
     \<lparr>tracked_sites_key = Some default_sites,
      work_hours_key = Some
        \<lparr>enabled = True, start = ''09:00'', finish = ''17:00'', stricter_limits = True\<rparr>\<rparr>"

text \<open>
  \<^verbatim>\<open>load_config\<close>: the argument is the content of the config file (\<open>None\<close> when the
  file does not exist). The result is the file afterwards (the default is saved when
  the file was absent), \<^verbatim>\<open>self.config\<close> and \<^verbatim>\<open>self.tracked_sites\<close>.
\<close>

definition load_config ::
  "config option \<Rightarrow> py_error + (config option \<times> config \<times> (string \<times> site_config) list)" where
  "load_config file =
     (let (file', cfg) =
        (case file of
           Some c \<Rightarrow> (file, c)
         | None \<Rightarrow> (Some default_config, default_config))
      in case tracked_sites_key cfg of
           None \<Rightarrow> Inl KeyError
         | Some sites \<Rightarrow> Inr (file', cfg, sites))"

text \<open>The invariant the data model asks of one site's configuration.\<close>

definition valid_site_config :: "site_config \<Rightarrow> bool" where
  "valid_site_config c = (0 < daily_limit c \<and> 0 < nudge_interval c)"

section \<open>The monitor (monitor.py, class ActivityMonitor)\<close>

text \<open>What the monitor prints, with the numbers kept exact instead of formatted.\<close>

datatype console_line =
    Started_viewing string
  | Switched_to string
  | Ended_session string rat
  | Total_today string rat

text \<open>
  The fields of \<^verbatim>\<open>ActivityMonitor\<close>, and the lines it has printed so far (oldest
  first).
\<close>

record monitor =
  tracked_sites :: "(string \<times> site_config) list"
  current_site :: "string option"
  session_start :: "instant option"
  last_nudge_time :: "instant option"
  daily_stats :: "(string \<times> rat) list"
  last_reset :: date
  console :: "console_line list"

text \<open>
  The field initialisation of \<^verbatim>\<open>__init__\<close>, after \<^verbatim>\<open>load_config\<close> has supplied the
  tracked sites; \<open>now\<close> is the clock at construction.
\<close>

definition initial_monitor :: "(string \<times> site_config) list \<Rightarrow> instant \<Rightarrow> monitor" where
  "initial_monitor sites now =
     \<lparr>tracked_sites = sites, current_site = None, session_start = None,
      last_nudge_time = None, daily_stats = [], last_reset = date_of now, console = []\<rparr>"

subsection \<open>The messages and events of check_for_nudge\<close>

datatype severity = Info | Warning

text \<open>
  The four message templates, with the values they interpolate:
  block (site, total today, limit), exceeded (site, total today, limit), running low
  (site, time remaining, session minutes), friendly reminder (site, session minutes,
  time remaining).
\<close>

datatype message =
    Limit_reached string rat rat
  | Exceeded_limit string rat rat
  | Running_low string rat rat
  | Friendly_reminder string rat rat

text \<open>
  The returned dictionary: a BLOCK has site and message; a NUDGE has severity, site,
  message, session_time, total_today and limit.
\<close>

datatype nudge =
    BLOCK string message
  | NUDGE severity string message rat rat rat

fun is_block :: "nudge option \<Rightarrow> bool" where
  "is_block (Some (BLOCK _ _)) = True"
| "is_block _ = False"

fun is_nudge :: "nudge option \<Rightarrow> bool" where
  "is_nudge (Some (NUDGE _ _ _ _ _ _)) = True"
| "is_nudge _ = False"

subsection \<open>_end_session\<close>

text \<open>
  The duration is the difference of the two clock readings, as it is; it is added
  (\<^verbatim>\<open>+=\<close>, a float addition) to the site's entry of \<^verbatim>\<open>daily_stats\<close>, created at 0
  when absent (so the subscript that follows cannot raise).
\<close>

definition end_session :: "monitor \<Rightarrow> instant \<Rightarrow> monitor" where
  "end_session s now =
     (case (current_site s, session_start s) of
        (Some site, Some started) \<Rightarrow>
          if site = [] then s
          else
            let duration = minutes_between now started;
                stats0 = (if map_of (daily_stats s) site = None
                          then AList.update site 0 (daily_stats s)
                          else daily_stats s);
                stats1 = AList.update site (float_add (dict_get stats0 site 0) duration) stats0
            in s\<lparr>daily_stats := stats1,
                 console := console s @
                   [Ended_session site duration, Total_today site (dict_get stats1 site 0)],
                 current_site := None,
                 session_start := None\<rparr>
      | _ \<Rightarrow> s)"

subsection \<open>check_for_nudge\<close>

text \<open>The local variables of \<^verbatim>\<open>check_for_nudge\<close>, for a session on \<open>site\<close> started at \<open>started\<close>.\<close>

definition current_session_minutes :: "instant \<Rightarrow> instant \<Rightarrow> rat" where
  "current_session_minutes now started = minutes_between now started"

definition total_today :: "monitor \<Rightarrow> string \<Rightarrow> instant \<Rightarrow> instant \<Rightarrow> rat" where
  "total_today s site now started =
     float_add (dict_get (daily_stats s) site 0) (current_session_minutes now started)"

definition minutes_since_last_nudge :: "monitor \<Rightarrow> instant \<Rightarrow> rat" where
  "minutes_since_last_nudge s now =
     (case last_nudge_time s of
        None \<Rightarrow> 999
      | Some t \<Rightarrow> minutes_between now t)"

definition nudge_message :: "string \<Rightarrow> rat \<Rightarrow> rat \<Rightarrow> rat \<Rightarrow> severity \<times> message" where
  "nudge_message site cap today session =
     (let time_remaining = float_sub cap today in
      if time_remaining \<le> 0 then (Warning, Exceeded_limit site today cap)
      else if time_remaining \<le> 10 then (Warning, Running_low site time_remaining session)
      else (Info, Friendly_reminder site session time_remaining))"

definition check_for_nudge :: "monitor \<Rightarrow> instant \<Rightarrow> py_error + (monitor \<times> nudge option)" where
  "check_for_nudge s now =
     (case (current_site s, session_start s) of
        (Some site, Some started) \<Rightarrow>
          if site = [] then Inr (s, None)
          else
            (case map_of (tracked_sites s) site of
               None \<Rightarrow> Inl KeyError
             | Some site_config \<Rightarrow>
                 let session = current_session_minutes now started;
                     today = total_today s site now started;
                     cap = daily_limit site_config;
                     interval = nudge_interval site_config
                 in
                   if today \<ge> cap \<and> hard_block site_config = Some True
                   then Inr (s, Some (BLOCK site (Limit_reached site today cap)))
                   else if session \<ge> interval \<and> minutes_since_last_nudge s now \<ge> interval
                   then
                     (let (sev, msg) = nudge_message site cap today session
                      in Inr (s\<lparr>last_nudge_time := Some now\<rparr>,
                              Some (NUDGE sev site msg session today cap)))
                   else Inr (s, None))
      | _ \<Rightarrow> Inr (s, None))"

subsection \<open>update_session\<close>

text \<open>Lines 114-117: the daily statistics are emptied when the date has changed.\<close>

definition reset_daily_stats :: "monitor \<Rightarrow> instant \<Rightarrow> monitor" where
  "reset_daily_stats s now =
     (if date_of now \<noteq> last_reset s
      then s\<lparr>daily_stats := [], last_reset := date_of now\<rparr>
      else s)"

text \<open>
  One poll cycle. \<open>detected_site\<close> is what \<^verbatim>\<open>detect_current_site\<close> returned (a key
  of \<^verbatim>\<open>tracked_sites\<close> or \<^verbatim>\<open>None\<close>; the detector itself is not modelled) and \<open>now\<close>
  the clock of the cycle: the calls of \<^verbatim>\<open>datetime.now()\<close> within one cycle are taken
  to read the same instant. The monitor is returned as the cycle leaves it, also when
  \<^verbatim>\<open>check_for_nudge\<close> raises (the reset of the statistics has happened by then).
\<close>

definition update_session ::
  "monitor \<Rightarrow> string option \<Rightarrow> instant \<Rightarrow> monitor \<times> (py_error + nudge option)" where
  "update_session s detected_site now =
     (let s1 = reset_daily_stats s now in
      if truthy detected_site \<and> \<not> truthy (current_site s1) then
        (s1\<lparr>current_site := detected_site, session_start := Some now,
            console := console s1 @ [Started_viewing (shown detected_site)]\<rparr>, Inr None)
      else if truthy (current_site s1) \<and> detected_site \<noteq> current_site s1 then
        (let s2 = end_session s1 now in
         if truthy detected_site then
           (s2\<lparr>current_site := detected_site, session_start := Some now,
               console := console s2 @ [Switched_to (shown detected_site)]\<rparr>, Inr None)
         else (s2, Inr None))
      else if truthy (current_site s1) then
        (case check_for_nudge s1 now of
           Inl e \<Rightarrow> (s1, Inl e)
         | Inr (s2, r) \<Rightarrow> (s2, Inr r))
      else (s1, Inr None))"

subsection \<open>get_daily_summary\<close>

record site_summary =
  time_spent :: rat
  limit :: rat
  percentage :: rat
  over_limit :: bool

text \<open>
  The loop over \<^verbatim>\<open>daily_stats.items()\<close>; \<^verbatim>\<open>self.tracked_sites[site]\<close> raises
  \<^verbatim>\<open>KeyError\<close> for a site that is not configured.
\<close>

fun summary_sites ::
  "(string \<times> site_config) list \<Rightarrow> (string \<times> rat) list \<Rightarrow> (string \<times> site_summary) list \<Rightarrow>
   py_error + (string \<times> site_summary) list" where
  "summary_sites sites [] acc = Inr acc"
| "summary_sites sites ((site, minutes) # rest) acc =
     (case map_of sites site of
        None \<Rightarrow> Inl KeyError
      | Some c \<Rightarrow>
          summary_sites sites rest
            (AList.update site
               \<lparr>time_spent = minutes,
                limit = daily_limit c,
                percentage =
                  (if daily_limit c > 0 then float_mul (float_div minutes (daily_limit c)) 100
                   else 0),
                over_limit = (minutes > daily_limit c)\<rparr>
               acc))"

definition get_daily_summary ::
  "monitor \<Rightarrow> instant \<Rightarrow> py_error + (date \<times> (string \<times> site_summary) list)" where
  "get_daily_summary s now =
     (case summary_sites (tracked_sites s) (daily_stats s) [] of
        Inl e \<Rightarrow> Inl e
      | Inr sites \<Rightarrow> Inr (date_of now, sites))"

section \<open>The drivers (tray_app.py)\<close>

text \<open>
  \<^verbatim>\<open>monitor_loop\<close>: one \<^verbatim>\<open>update_session\<close> per poll, on the monitor the previous poll
  left; an exception is caught and the loop goes on. The list holds, for each poll
  until the loop stops, what the detector returned and the clock.
\<close>

fun monitor_loop :: "monitor \<Rightarrow> (string option \<times> instant) list \<Rightarrow> monitor" where
  "monitor_loop s [] = s"
| "monitor_loop s ((detected_site, now) # polls) =
     monitor_loop (fst (update_session s detected_site now)) polls"

record tray =
  tray_monitor :: monitor
  running :: bool

text \<open>
  \<^verbatim>\<open>quit_app\<close>: the final summary is taken from the monitor as it stands, then the
  loop is told to stop. (The KeyboardInterrupt handler of monitor.py does the same:
  it calls \<^verbatim>\<open>get_daily_summary\<close> and nothing else on the monitor.)
\<close>

definition quit_app ::
  "tray \<Rightarrow> instant \<Rightarrow> tray \<times> (py_error + (date \<times> (string \<times> site_summary) list))" where
  "quit_app app now =
     (case get_daily_summary (tray_monitor app) now of
        Inl e \<Rightarrow> (app, Inl e)
      | Inr summary \<Rightarrow> (app\<lparr>running := False\<rparr>, Inr summary))"

section \<open>Invariants of the monitor\<close>

text \<open>
  The two fields of the open session go together, and the current site is never the
  empty string.
\<close>

definition paired :: "monitor \<Rightarrow> bool" where
  "paired s =
     (((current_site s = None) = (session_start s = None)) \<and> current_site s \<noteq> Some [])"

text \<open>
  A clock that never runs backwards: every poll reads the clock at or after the poll
  before it (and the first one at or after \<open>t\<close>). \<open>last_clock\<close> is the last reading.
\<close>

fun monotone_clock :: "instant \<Rightarrow> (string option \<times> instant) list \<Rightarrow> bool" where
  "monotone_clock t [] = True"
| "monotone_clock t ((detected_site, now) # polls) = (t \<le> now \<and> monotone_clock now polls)"

fun last_clock :: "instant \<Rightarrow> (string option \<times> instant) list \<Rightarrow> instant" where
  "last_clock t [] = t"
| "last_clock t ((detected_site, now) # polls) = last_clock now polls"

text \<open>No instant the monitor remembers lies after \<open>t\<close>.\<close>

definition clock_bound :: "instant \<Rightarrow> monitor \<Rightarrow> bool" where
  "clock_bound t s =
     ((case session_start s of None \<Rightarrow> True | Some started \<Rightarrow> started \<le> t) \<and>
      (case last_nudge_time s of None \<Rightarrow> True | Some l \<Rightarrow> l \<le> t))"

text \<open>No total of the day and no printed session duration is negative.\<close>

definition nonneg_stats :: "monitor \<Rightarrow> bool" where
  "nonneg_stats s =
     (list_all (\<lambda>(site, v). 0 \<le> v) (daily_stats s) \<and>
      list_all (\<lambda>l. case l of Ended_session site d \<Rightarrow> 0 \<le> d | _ \<Rightarrow> True) (console s))"

text \<open>
  Sessions are counted on the console: a session opens with "Started viewing" or
  "Switched to" and closes with "Ended session".
\<close>

fun opens_session :: "console_line \<Rightarrow> bool" where
  "opens_session (Started_viewing site) = True"
| "opens_session (Switched_to site) = True"
| "opens_session _ = False"

fun closes_session :: "console_line \<Rightarrow> bool" where
  "closes_session (Ended_session site d) = True"
| "closes_session _ = False"

definition sessions_opened :: "monitor \<Rightarrow> nat" where
  "sessions_opened s = length (filter opens_session (console s))"

definition sessions_closed :: "monitor \<Rightarrow> nat" where
  "sessions_closed s = length (filter closes_session (console s))"

text \<open>Every opened session but the one now open has been closed, once.\<close>

definition balanced :: "monitor \<Rightarrow> bool" where
  "balanced s =
     (sessions_opened s = sessions_closed s + (if current_site s = None then 0 else 1))"

text \<open>The keys of \<^verbatim>\<open>daily_stats\<close> are distinct, as the keys of a dictionary are.\<close>

definition distinct_stats :: "monitor \<Rightarrow> bool" where
  "distinct_stats s = distinct (map fst (daily_stats s))"

text \<open>
  The durations of the sessions on \<open>site\<close> that the console reports as ended, in the
  order of the reports, and their sum as the repeated \<^verbatim>\<open>+=\<close> of \<^verbatim>\<open>_end_session\<close>
  computes it, starting from 0.
\<close>

fun ended_durations :: "string \<Rightarrow> console_line list \<Rightarrow> rat list" where
  "ended_durations site [] = []"
| "ended_durations site (Ended_session site' d # ls) =
     (if site' = site then [d] else []) @ ended_durations site ls"
| "ended_durations site (l # ls) = ended_durations site ls"



section \<open>What the driver sees\<close>

text \<open>
  The event a poll hands to the driver (\<^verbatim>\<open>if nudge: ... send_nudge(nudge)\<close>): nothing
  when \<^verbatim>\<open>update_session\<close> raised.
\<close>

fun produced :: "py_error + nudge option \<Rightarrow> nudge option" where
  "produced (Inr r) = r"
| "produced (Inl e) = None"

text \<open>The instants of the polls of a run at which a NUDGE was handed to the driver.\<close>

fun nudge_times :: "monitor \<Rightarrow> (string option \<times> instant) list \<Rightarrow> instant list" where
  "nudge_times s [] = []"
| "nudge_times s ((detected_site, now) # polls) =
     (if is_nudge (produced (snd (update_session s detected_site now))) then [now] else []) @
     nudge_times (fst (update_session s detected_site now)) polls"

section \<open>Example data\<close>

text \<open>One minute of the clock, in microseconds.\<close>

definition minute :: instant where
  "minute = 60000000"

text \<open>
  Scenario A: the default configuration, the monitor constructed at instant 0 and a
  session on youtube.com (daily limit 60, nudge interval 15) opened at instant 0.
\<close>

definition scenario_A :: monitor where
  "scenario_A = monitor_loop (initial_monitor default_sites 0) [(Some ''youtube.com'', 0)]"

text \<open>
  Scenario B with a hard block: 55 minutes on youtube.com earlier today, and a new
  session opened at minute 55.
\<close>

definition hard_sites :: "(string \<times> site_config) list" where
  "hard_sites =
     [(''youtube.com'', \<lparr>daily_limit = 60, nudge_interval = 15, hard_block = Some True\<rparr>)]"

definition scenario_B :: monitor where
  "scenario_B = monitor_loop (initial_monitor hard_sites 0)
     [(Some ''youtube.com'', 0), (None, 55 * minute), (Some ''youtube.com'', 55 * minute)]"

text \<open>A site whose nudge interval is above 999 minutes, and a session on it opened at 0.\<close>

definition long_sites :: "(string \<times> site_config) list" where
  "long_sites =
     [(''youtube.com'', \<lparr>daily_limit = 2000, nudge_interval = 1000, hard_block = Some False\<rparr>)]"

definition scenario_long :: monitor where
  "scenario_long = monitor_loop (initial_monitor long_sites 0) [(Some ''youtube.com'', 0)]"

text \<open>The clock jumps back five minutes while a session is open.\<close>

definition scenario_clock_back :: monitor where
  "scenario_clock_back = monitor_loop (initial_monitor default_sites 0)
     [(Some ''youtube.com'', 10 * minute), (None, 5 * minute)]"

text \<open>Scenario A continued: the nudge of minute 15, then a switch to reddit.com at minute 16.\<close>

definition scenario_switch :: monitor where
  "scenario_switch = monitor_loop (initial_monitor default_sites 0)
     [(Some ''youtube.com'', 0), (Some ''youtube.com'', 15 * minute),
      (Some ''reddit.com'', 16 * minute)]"

text \<open>A configuration file with a zero daily limit and a negative nudge interval.\<close>

definition unchecked_sites :: "(string \<times> site_config) list" where
  "unchecked_sites =
     [(''youtube.com'', \<lparr>daily_limit = 0, nudge_interval = - 5, hard_block = Some False\<rparr>)]"

definition unchecked_config :: config where
  "unchecked_config = \<lparr>tracked_sites_key = Some unchecked_sites, work_hours_key = None\<rparr>"

text \<open>Ten minutes on youtube.com on day 0, then no tracked site.\<close>

definition scenario_idle :: monitor where
  "scenario_idle = monitor_loop (initial_monitor default_sites 0)
     [(Some ''youtube.com'', 0), (None, 10 * minute)]"


text \<open>
  A session of 3.8 seconds on youtube.com, closed, and a second one opened at once:
  the state in which sums of minutes stop being exact.
\<close>

definition scenario_rounding :: monitor where
  "scenario_rounding = monitor_loop (initial_monitor hard_sites 0)
     [(Some ''youtube.com'', 0), (None, 3800000), (Some ''youtube.com'', 3800000)]"

section \<open>Properties of the rounding\<close>

text \<open>
  Rounding is monotone, keeps the sign, and leaves every float as it is; in particular
  the integers below 2 ^ 53.
\<close>

lemma round_half_even_mono: "r \<le> s \<Longrightarrow> round_half_even r \<le> round_half_even s"
proof -
  assume le: "r \<le> s"
  then have f: "\<lfloor>r\<rfloor> \<le> \<lfloor>s\<rfloor>" by (rule floor_mono)
  show ?thesis
  proof (cases "\<lfloor>r\<rfloor> = \<lfloor>s\<rfloor>")
    case True
    with le show ?thesis by (auto simp: round_half_even_def Let_def)
  next
    case False
    with f have "\<lfloor>r\<rfloor> + 1 \<le> \<lfloor>s\<rfloor>" by simp
    moreover have "round_half_even r \<le> \<lfloor>r\<rfloor> + 1" by (simp add: round_half_even_def Let_def)
    moreover have "\<lfloor>s\<rfloor> \<le> round_half_even s" by (simp add: round_half_even_def Let_def)
    ultimately show ?thesis by linarith
  qed
qed

lemma round_half_even_of_int [simp]: "round_half_even (of_int n) = n"
  by (simp add: round_half_even_def)

lemma exponent_bounds:
  assumes "0 < x"
  shows "2 powi (exponent x) \<le> x" and "x < 2 powi (exponent x + 1)"
proof -
  have "2 powi (exponent x) \<le> x \<and> x < 2 powi (exponent x + 1)"
  proof (cases "1 \<le> x")
    case True
    let ?n = "\<lfloor>x\<rfloor>"
    from True have n: "0 < ?n" by simp
    from bitlen_bounds [OF n] have lo: "2 ^ nat (bitlen ?n - 1) \<le> ?n" and hi: "?n < 2 ^ nat (bitlen ?n)"
      by simp_all
    from n have b: "1 \<le> bitlen ?n" by (auto simp: bitlen_alt_def)
    have e: "exponent x = bitlen ?n - 1" using True by (simp add: exponent_def)
    have "(2::rat) powi (bitlen ?n - 1) = of_int (2 ^ nat (bitlen ?n - 1))"
      using b by (simp add: power_int_def)
    also have "\<dots> \<le> of_int ?n" using lo by (simp only: of_int_le_iff)
    also have "\<dots> \<le> x" by simp
    finally have 1: "2 powi (exponent x) \<le> x" by (simp only: e)
    from hi have "?n + 1 \<le> 2 ^ nat (bitlen ?n)" by simp
    then have "(of_int (?n + 1) :: rat) \<le> of_int (2 ^ nat (bitlen ?n))" by (simp only: of_int_le_iff)
    moreover have "x < of_int (?n + 1)" using floor_correct [of x] by blast
    moreover have "(2::rat) powi (bitlen ?n - 1 + 1) = of_int (2 ^ nat (bitlen ?n))"
      using b by (simp add: power_int_def)
    ultimately have 2: "x < 2 powi (exponent x + 1)" by (simp only: e)
    from 1 2 show ?thesis ..
  next
    case False
    with assms have x: "0 < x" "x < 1" by simp_all
    let ?y = "1 / x"
    let ?m = "\<lceil>?y\<rceil> - 1"
    from x have y: "1 < ?y" by simp
    then have m: "0 < ?m" by (simp add: less_ceiling_iff)
    from bitlen_bounds [OF m] have lo: "2 ^ nat (bitlen ?m - 1) \<le> ?m" and hi: "?m < 2 ^ nat (bitlen ?m)"
      by simp_all
    from m have b: "1 \<le> bitlen ?m" by (auto simp: bitlen_alt_def)
    have e: "exponent x = - bitlen ?m" using False by (simp add: exponent_def)
    have my: "of_int ?m < ?y" "?y \<le> of_int (?m + 1)"
      by (simp_all add: ceiling_correct)
    from hi have "?m + 1 \<le> 2 ^ nat (bitlen ?m)" by simp
    then have "(of_int (?m + 1) :: rat) \<le> of_int (2 ^ nat (bitlen ?m))" by (simp only: of_int_le_iff)
    moreover have "(of_int (2 ^ nat (bitlen ?m)) :: rat) = 2 ^ nat (bitlen ?m)" by simp
    ultimately have yle: "?y \<le> 2 ^ nat (bitlen ?m)" using my(2) by linarith
    have "(2 ^ nat (bitlen ?m - 1) :: rat) = of_int (2 ^ nat (bitlen ?m - 1))" by simp
    also have "\<dots> \<le> of_int ?m" using lo by (simp only: of_int_le_iff)
    also have "\<dots> < ?y" by (rule my(1))
    finally have ylt: "2 ^ nat (bitlen ?m - 1) < ?y" .
    have p1: "(2::rat) powi (- bitlen ?m) = 1 / 2 ^ nat (bitlen ?m)"
      using b by (simp add: power_int_def field_simps power_inverse)
    have p2: "(2::rat) powi (- bitlen ?m + 1) = 1 / 2 ^ nat (bitlen ?m - 1)"
      using b by (simp add: power_int_def field_simps power_inverse)
    from yle x have "1 / 2 ^ nat (bitlen ?m) \<le> x"
      by (simp add: field_simps)
    moreover from ylt x have "x < 1 / 2 ^ nat (bitlen ?m - 1)"
      by (simp add: field_simps)
    ultimately show ?thesis by (simp only: e p1 p2)
  qed
  then show "2 powi (exponent x) \<le> x" and "x < 2 powi (exponent x + 1)" by simp_all
qed


lemma round_to_mono:
  assumes "0 < u" and "x \<le> y"
  shows "round_to u x \<le> round_to u y"
proof -
  from assms have "x / u \<le> y / u" by (simp add: divide_right_mono)
  then have "round_half_even (x / u) \<le> round_half_even (y / u)" by (rule round_half_even_mono)
  then have "(of_int (round_half_even (x / u)) :: rat) \<le> of_int (round_half_even (y / u))"
    by (simp only: of_int_le_iff)
  then show ?thesis unfolding round_to_def using assms(1) by (intro mult_right_mono) simp_all
qed

lemma round_to_multiple: "u \<noteq> 0 \<Longrightarrow> round_to u (of_int m * u) = of_int m * u"
  by (simp add: round_to_def)

lemma ulp_pos: "0 < ulp x"
  by (simp add: ulp_def)

lemma two_powi_mono: "a \<le> b \<Longrightarrow> (2::rat) powi a \<le> 2 powi b"
  by (rule power_int_increasing) simp_all

lemma two_powi_split:
  assumes "k \<le> a"
  shows "(2::rat) powi a = of_int (2 ^ nat (a - k)) * 2 powi k"
proof -
  have "(2::rat) powi (int (nat (a - k)) + k) = 2 powi (int (nat (a - k))) * 2 powi k"
    by (rule power_int_add) simp
  moreover have "int (nat (a - k)) + k = a" using assms by simp
  moreover have "(2::rat) powi (int (nat (a - k))) = of_int (2 ^ nat (a - k))"
    by (simp only: power_int_of_nat) simp
  ultimately show ?thesis using assms by simp
qed

lemma exponent_mono:
  assumes "0 < x" and "x \<le> y"
  shows "exponent x \<le> exponent y"
proof (rule ccontr)
  assume "\<not> exponent x \<le> exponent y"
  then have "exponent y + 1 \<le> exponent x" by simp
  then have "(2::rat) powi (exponent y + 1) \<le> 2 powi (exponent x)" by (rule two_powi_mono)
  moreover from assms have "0 < y" by simp
  then have "y < 2 powi (exponent y + 1)" by (rule exponent_bounds)
  moreover have "2 powi (exponent x) \<le> x" using assms(1) by (rule exponent_bounds)
  ultimately show False using assms(2) by linarith
qed

text \<open>Two roundings meet at a number that lies on both grids.\<close>

lemma float_round_bridge:
  assumes "x \<noteq> 0" and "y \<noteq> 0" and "x \<le> b" and "b \<le> y"
    and "b = of_int m * ulp x" and "b = of_int n * ulp y"
  shows "float_round x \<le> float_round y"
proof -
  have "round_to (ulp x) x \<le> round_to (ulp x) b" using ulp_pos assms(3) by (rule round_to_mono)
  also have "\<dots> = b" unfolding assms(5) using ulp_pos [of x] by (intro round_to_multiple) simp
  also have "b = round_to (ulp y) b"
    unfolding assms(6) using ulp_pos [of y] by (intro round_to_multiple [symmetric]) simp
  also have "\<dots> \<le> round_to (ulp y) y" using ulp_pos assms(4) by (rule round_to_mono)
  finally show ?thesis using assms(1,2) by (simp add: float_round_def)
qed

lemma round_to_zero: "round_to u 0 = 0"
  using round_half_even_of_int [of 0] by (simp add: round_to_def)

lemma float_round_nonneg: "0 \<le> x \<Longrightarrow> 0 \<le> float_round x"
  using round_to_mono [OF ulp_pos, of 0 x x] by (simp add: float_round_def round_to_zero)

lemma float_round_nonpos: "x \<le> 0 \<Longrightarrow> float_round x \<le> 0"
  using round_to_mono [OF ulp_pos, of x 0 x] by (simp add: float_round_def round_to_zero)

lemma float_round_mono_pos:
  assumes "0 < x" and "x \<le> y"
  shows "float_round x \<le> float_round y"
proof -
  from assms have y: "0 < y" by simp
  let ?ex = "exponent x" and ?ey = "exponent y"
  have ee: "?ex \<le> ?ey" using assms by (rule exponent_mono)
  have ux: "ulp x = 2 powi (max ?ex (- 1022) - 52)" using assms(1) by (simp add: ulp_def)
  have uy: "ulp y = 2 powi (max ?ey (- 1022) - 52)" using y by (simp add: ulp_def)
  show ?thesis
  proof (cases "max ?ex (- 1022) = max ?ey (- 1022)")
    case True
    then have "ulp x = ulp y" by (simp add: ux uy)
    with round_to_mono [OF ulp_pos assms(2), of y] assms(1) y show ?thesis
      by (simp add: float_round_def)
  next
    case False
    with ee have lt: "?ex < ?ey" and big: "- 1022 < ?ey" by auto
    let ?b = "(2::rat) powi ?ey"
    have "x < 2 powi (?ex + 1)" using assms(1) by (rule exponent_bounds)
    also have "\<dots> \<le> ?b" using lt by (intro two_powi_mono) simp
    finally have xb: "x \<le> ?b" by simp
    have by': "?b \<le> y" using y by (rule exponent_bounds)
    have bx: "?b = of_int (2 ^ nat (?ey - (max ?ex (- 1022) - 52))) * ulp x"
      unfolding ux using lt big by (intro two_powi_split) simp
    have b2: "?b = of_int (2 ^ nat (?ey - (max ?ey (- 1022) - 52))) * ulp y"
      unfolding uy using big by (intro two_powi_split) simp
    have nz: "x \<noteq> 0" "y \<noteq> 0" using assms(1) y by simp_all
    show ?thesis using nz xb by' bx b2 by (rule float_round_bridge)
  qed
qed

lemma float_round_mono_neg:
  assumes "y < 0" and "x \<le> y"
  shows "float_round x \<le> float_round y"
proof -
  from assms have x: "x < 0" by simp
  let ?ex = "exponent \<bar>x\<bar>" and ?ey = "exponent \<bar>y\<bar>"
  from assms x have ay: "0 < \<bar>y\<bar>" and ayx: "\<bar>y\<bar> \<le> \<bar>x\<bar>" by simp_all
  then have ax: "0 < \<bar>x\<bar>" by simp
  have ee: "?ey \<le> ?ex" using ay ayx by (rule exponent_mono)
  have ux: "ulp x = 2 powi (max ?ex (- 1022) - 52)" by (simp add: ulp_def)
  have uy: "ulp y = 2 powi (max ?ey (- 1022) - 52)" by (simp add: ulp_def)
  show ?thesis
  proof (cases "max ?ex (- 1022) = max ?ey (- 1022)")
    case True
    then have "ulp x = ulp y" by (simp add: ux uy)
    with round_to_mono [OF ulp_pos assms(2), of y] assms(1) x show ?thesis
      by (simp add: float_round_def)
  next
    case False
    with ee have lt: "?ey < ?ex" and big: "- 1022 < ?ex" by auto
    let ?b = "- ((2::rat) powi ?ex)"
    have "2 powi ?ex \<le> \<bar>x\<bar>" using ax by (rule exponent_bounds)
    with x have xb: "x \<le> ?b" by simp
    have "\<bar>y\<bar> < 2 powi (?ey + 1)" using ay by (rule exponent_bounds)
    also have "\<dots> \<le> 2 powi ?ex" using lt by (intro two_powi_mono) simp
    finally have by': "?b \<le> y" using assms(1) by simp
    have "(2::rat) powi ?ex = of_int (2 ^ nat (?ex - (max ?ex (- 1022) - 52))) * ulp x"
      unfolding ux using big by (intro two_powi_split) simp
    then have bx: "?b = of_int (- (2 ^ nat (?ex - (max ?ex (- 1022) - 52)))) * ulp x"
      by simp
    have "(2::rat) powi ?ex = of_int (2 ^ nat (?ex - (max ?ey (- 1022) - 52))) * ulp y"
      unfolding uy using lt big by (intro two_powi_split) simp
    then have b2: "?b = of_int (- (2 ^ nat (?ex - (max ?ey (- 1022) - 52)))) * ulp y"
      by simp
    have nz: "x \<noteq> 0" "y \<noteq> 0" using assms(1) x by simp_all
    show ?thesis using nz xb by' bx b2 by (rule float_round_bridge)
  qed
qed

lemma float_round_mono: "x \<le> y \<Longrightarrow> float_round x \<le> float_round y"
proof -
  assume le: "x \<le> y"
  consider "0 < x" | "y < 0" | "x \<le> 0" "0 \<le> y" by linarith
  then show ?thesis
  proof cases
    case 1
    then show ?thesis using le by (rule float_round_mono_pos)
  next
    case 2
    then show ?thesis using le by (rule float_round_mono_neg)
  next
    case 3
    then have "float_round x \<le> 0" "0 \<le> float_round y"
      by (simp_all add: float_round_nonpos float_round_nonneg)
    then show ?thesis by simp
  qed
qed


lemma exponent_unique:
  assumes "0 < x" and "2 powi e \<le> x" and "x < 2 powi (e + 1)"
  shows "exponent x = e"
proof (rule antisym)
  show "exponent x \<le> e"
  proof (rule ccontr)
    assume "\<not> exponent x \<le> e"
    then have "e + 1 \<le> exponent x" by simp
    then have "(2::rat) powi (e + 1) \<le> 2 powi (exponent x)" by (rule two_powi_mono)
    with exponent_bounds(1) [OF assms(1)] assms(3) show False by linarith
  qed
  show "e \<le> exponent x"
  proof (rule ccontr)
    assume "\<not> e \<le> exponent x"
    then have "exponent x + 1 \<le> e" by simp
    then have "(2::rat) powi (exponent x + 1) \<le> 2 powi e" by (rule two_powi_mono)
    with exponent_bounds(2) [OF assms(1)] assms(2) show False by linarith
  qed
qed

text \<open>A number with at most 53 significant bits is a float: rounding leaves it as it is.\<close>

lemma float_round_exact:
  assumes x: "x = of_int n * 2 powi k" and n: "\<bar>n\<bar> < 2 ^ 53" and k: "- 1074 \<le> k"
  shows "float_round x = x"
proof (cases "x = 0")
  case True
  then show ?thesis by (simp add: float_round_def)
next
  case False
  then have pos: "0 < \<bar>x\<bar>" by simp
  let ?e = "exponent \<bar>x\<bar>"
  let ?j = "max ?e (- 1022) - 52"
  have "\<bar>x\<bar> = of_int \<bar>n\<bar> * 2 powi k" by (simp add: x abs_mult)
  also have "\<dots> < of_int (2 ^ 53) * 2 powi k"
    using n by (intro mult_strict_right_mono) (simp_all only: of_int_less_iff zero_less_power_int zero_less_numeral)
  also have "\<dots> = 2 powi (53 + k)"
    by (subst power_int_add) simp_all
  finally have "\<bar>x\<bar> < 2 powi (53 + k)" .
  with exponent_bounds(1) [OF pos] have lt: "(2::rat) powi ?e < 2 powi (53 + k)" by simp
  have "?e < 53 + k"
  proof (rule ccontr)
    assume "\<not> ?e < 53 + k"
    then have "(2::rat) powi (53 + k) \<le> 2 powi ?e" by (intro two_powi_mono) simp
    with lt show False by simp
  qed
  with k have jk: "?j \<le> k" by simp
  have u: "ulp x = 2 powi ?j" by (simp add: ulp_def)
  have split: "(2::rat) powi k = of_int (2 ^ nat (k - ?j)) * 2 powi ?j"
    by (rule two_powi_split [OF jk])
  have "of_int n * 2 powi k = of_int (n * 2 ^ nat (k - ?j)) * ulp x"
    by (subst split) (simp add: u)
  with x have m: "x = of_int (n * 2 ^ nat (k - ?j)) * ulp x" by (rule trans)
  have "round_to (ulp x) (of_int (n * 2 ^ nat (k - ?j)) * ulp x) = of_int (n * 2 ^ nat (k - ?j)) * ulp x"
    using ulp_pos [of x] by (intro round_to_multiple) simp
  with m have "round_to (ulp x) x = x" by simp
  with False show ?thesis by (simp add: float_round_def)
qed

lemma float_round_of_int: "\<bar>n\<bar> < 2 ^ 53 \<Longrightarrow> float_round (of_int n) = of_int n"
  using float_round_exact [of "of_int n" n 0] by simp

lemma float_round_numeral [simp]:
  "numeral w < (9007199254740992 :: int) \<Longrightarrow> float_round (numeral w) = numeral w"
  using float_round_of_int [of "numeral w"] by simp

lemma float_round_neg_numeral [simp]:
  "numeral w < (9007199254740992 :: int) \<Longrightarrow> float_round (- numeral w) = - numeral w"
  using float_round_of_int [of "- numeral w"] by simp

lemma float_round_zero [simp]: "float_round 0 = 0"
  by (simp add: float_round_def)

lemma float_round_one [simp]: "float_round 1 = 1"
  using float_round_of_int [of 1] by simp

lemma round_half_even_near:
  assumes "of_int n - 1 / 2 < r" and "r < of_int n + 1 / 2"
  shows "round_half_even r = n"
proof -
  have "\<lfloor>r\<rfloor> = n \<or> \<lfloor>r\<rfloor> = n - 1"
    using assms floor_correct [of r] by (auto simp: floor_eq_iff)
  then show ?thesis
  proof
    assume f: "\<lfloor>r\<rfloor> = n"
    with assms show ?thesis by (simp add: round_half_even_def Let_def)
  next
    assume f: "\<lfloor>r\<rfloor> = n - 1"
    with assms show ?thesis by (simp add: round_half_even_def Let_def)
  qed
qed

text \<open>The rounding of a positive number, from its exponent and its nearest grid point.\<close>

lemma float_round_near:
  assumes "0 < x" and "2 powi e \<le> x" and "x < 2 powi (e + 1)" and "- 1022 \<le> e"
    and "of_int n - 1 / 2 < x / 2 powi (e - 52)" and "x / 2 powi (e - 52) < of_int n + 1 / 2"
  shows "float_round x = of_int n * 2 powi (e - 52)"
proof -
  have "exponent \<bar>x\<bar> = e" using assms(1-3) by (intro exponent_unique) simp_all
  with assms(4) have u: "ulp x = 2 powi (e - 52)" by (simp add: ulp_def max_def)
  have "round_half_even (x / 2 powi (e - 52)) = n" using assms(5,6) by (rule round_half_even_near)
  with u assms(1) show ?thesis by (simp add: float_round_def round_to_def)
qed

lemma float_add_mono: "a \<le> a' \<Longrightarrow> b \<le> b' \<Longrightarrow> float_add a b \<le> float_add a' b'"
  unfolding float_add_def by (intro float_round_mono add_mono)

lemma float_add_nonneg: "0 \<le> a \<Longrightarrow> 0 \<le> b \<Longrightarrow> 0 \<le> float_add a b"
  unfolding float_add_def by (intro float_round_nonneg add_nonneg_nonneg)

section \<open>Clock arithmetic and the shape of check_for_nudge\<close>

lemma minutes_between_nonneg: "t \<le> now \<Longrightarrow> 0 \<le> minutes_between now t"
  unfolding minutes_between_def total_seconds_def float_div_def
  by (intro float_round_nonneg divide_nonneg_nonneg) simp_all

lemma minutes_between_mono: "a \<le> b \<Longrightarrow> minutes_between a t \<le> minutes_between b t"
  unfolding minutes_between_def total_seconds_def float_div_def
  by (intro float_round_mono divide_right_mono) simp_all

lemma minutes_between_antimono: "l \<le> st \<Longrightarrow> minutes_between now st \<le> minutes_between now l"
  unfolding minutes_between_def total_seconds_def float_div_def
  by (intro float_round_mono divide_right_mono) simp_all

text \<open>
  A whole number of minutes is a float, and so are its seconds: the two divisions are
  exact.
\<close>

lemma minutes_between_whole:
  assumes "later - earlier = n * minute" and "\<bar>n\<bar> < 2 ^ 40"
  shows "minutes_between later earlier = of_int n"
proof -
  from assms(2) have "\<bar>n * 60\<bar> < 2 ^ 53" by simp
  then have sec: "float_round (of_int (n * 60)) = of_int (n * 60)" by (rule float_round_of_int)
  from assms(2) have "\<bar>n\<bar> < 2 ^ 53" by simp
  then have mins: "float_round (of_int n) = of_int n" by (rule float_round_of_int)
  have "of_int (n * minute) / (1000000 :: rat) = of_int (n * 60)" by (simp add: minute_def)
  with sec have "total_seconds (n * minute) = of_int (n * 60)"
    by (simp only: total_seconds_def float_div_def)
  moreover have "of_int (n * 60) / (60 :: rat) = of_int n" by simp
  ultimately show ?thesis using mins
    by (simp only: minutes_between_def float_div_def assms(1))
qed

lemmas poll_defs =
  update_session_def reset_daily_stats_def date_of_def truthy_def shown_def end_session_def
  check_for_nudge_def current_session_minutes_def total_today_def minutes_since_last_nudge_def
  nudge_message_def minutes_between_def total_seconds_def float_add_def float_sub_def
  float_div_def dict_get_def minute_def Let_def

lemma scenario_A_eq:
  "scenario_A =
     \<lparr>tracked_sites = default_sites, current_site = Some ''youtube.com'',
      session_start = Some 0, last_nudge_time = None, daily_stats = [], last_reset = 0,
      console = [Started_viewing ''youtube.com'']\<rparr>"
  by (simp add: scenario_A_def initial_monitor_def update_session_def reset_daily_stats_def
      date_of_def truthy_def shown_def)

text \<open>Scenario A at minute 15: the first nudge, a friendly reminder with 45 minutes left.\<close>

lemma scenario_A_nudge:
  "check_for_nudge scenario_A (15 * minute) =
     Inr (scenario_A\<lparr>last_nudge_time := Some (15 * minute)\<rparr>,
          Some (NUDGE Info ''youtube.com'' (Friendly_reminder ''youtube.com'' 15 45) 15 15 60))"
  unfolding scenario_A_eq by (simp add: default_sites_def poll_defs)

text \<open>
  With a session open on a configured site, \<^verbatim>\<open>check_for_nudge\<close> is the three-way
  decision of its body.
\<close>

lemma check_for_nudge_open:
  assumes "current_site s = Some site" and "site \<noteq> []" and "session_start s = Some started"
    and "map_of (tracked_sites s) site = Some c"
  shows "check_for_nudge s now =
    (if daily_limit c \<le> total_today s site now started \<and> hard_block c = Some True
     then Inr (s, Some (BLOCK site
                 (Limit_reached site (total_today s site now started) (daily_limit c))))
     else if nudge_interval c \<le> current_session_minutes now started \<and>
             nudge_interval c \<le> minutes_since_last_nudge s now
     then Inr (s\<lparr>last_nudge_time := Some now\<rparr>,
               Some (NUDGE (fst (nudge_message site (daily_limit c)
                                   (total_today s site now started)
                                   (current_session_minutes now started)))
                      site
                      (snd (nudge_message site (daily_limit c)
                                   (total_today s site now started)
                                   (current_session_minutes now started)))
                      (current_session_minutes now started)
                      (total_today s site now started) (daily_limit c)))
     else Inr (s, None))"
  using assms by (simp add: check_for_nudge_def Let_def split_beta)

lemma check_for_nudge_event:
  assumes "check_for_nudge s now = Inr (s', Some e)"
  obtains site started c where "current_site s = Some site" and "site \<noteq> []"
    and "session_start s = Some started" and "map_of (tracked_sites s) site = Some c"
  using assms
  by (auto simp: check_for_nudge_def split: option.splits if_splits)

lemma check_for_nudge_state:
  assumes "check_for_nudge s now = Inr (s', r)"
  shows "s' = s \<or> (is_nudge r \<and> s' = s\<lparr>last_nudge_time := Some now\<rparr>)"
  using assms
  by (auto simp: check_for_nudge_def Let_def split_beta split: option.splits if_splits)

section \<open>Severity selection\<close>

text \<open>
  Claim C7. When the gate passes (a session is open on a configured site, no BLOCK is
  due, the session has lasted the nudge interval and so has the time since the last
  nudge), \<^verbatim>\<open>check_for_nudge\<close> returns a NUDGE and records its instant. With
  time_remaining = daily_limit - total_today, as the code computes it, the NUDGE has
  severity WARNING and the "exceeded daily limit" message when time_remaining \<le> 0,
  WARNING and the "running low" message when 0 < time_remaining \<le> 10, and INFO and
  the "friendly reminder" message when time_remaining > 10.
\<close>

theorem severity_selection:
  assumes "current_site s = Some site" and "site \<noteq> []" and "session_start s = Some started"
    and "map_of (tracked_sites s) site = Some c"
    and "\<not> (daily_limit c \<le> total_today s site now started \<and> hard_block c = Some True)"
    and "nudge_interval c \<le> current_session_minutes now started"
    and "nudge_interval c \<le> minutes_since_last_nudge s now"
  shows "(float_sub (daily_limit c) (total_today s site now started) \<le> 0 \<longrightarrow>
            check_for_nudge s now =
              Inr (s\<lparr>last_nudge_time := Some now\<rparr>,
                   Some (NUDGE Warning site
                           (Exceeded_limit site (total_today s site now started) (daily_limit c))
                           (current_session_minutes now started)
                           (total_today s site now started) (daily_limit c)))) \<and>
         (0 < float_sub (daily_limit c) (total_today s site now started) \<and>
          float_sub (daily_limit c) (total_today s site now started) \<le> 10 \<longrightarrow>
            check_for_nudge s now =
              Inr (s\<lparr>last_nudge_time := Some now\<rparr>,
                   Some (NUDGE Warning site
                           (Running_low site
                              (float_sub (daily_limit c) (total_today s site now started))
                              (current_session_minutes now started))
                           (current_session_minutes now started)
                           (total_today s site now started) (daily_limit c)))) \<and>
         (10 < float_sub (daily_limit c) (total_today s site now started) \<longrightarrow>
            check_for_nudge s now =
              Inr (s\<lparr>last_nudge_time := Some now\<rparr>,
                   Some (NUDGE Info site
                           (Friendly_reminder site (current_session_minutes now started)
                              (float_sub (daily_limit c) (total_today s site now started)))
                           (current_session_minutes now started)
                           (total_today s site now started) (daily_limit c))))"
  using assms(5-7) unfolding check_for_nudge_open [OF assms(1-4)]
  by (auto simp: nudge_message_def Let_def)

text \<open>
  Scenario A with no nudge before: at minute 15 there are 45 minutes left (INFO), at
  minute 55 there are 5 left (WARNING, running low), at minute 70 the limit is exceeded
  by 10 (WARNING, exceeded).
\<close>

lemma scenario_A_severities:
  "current_site scenario_A = Some ''youtube.com'' \<and> session_start scenario_A = Some 0 \<and>
   map_of (tracked_sites scenario_A) ''youtube.com'' =
     Some \<lparr>daily_limit = 60, nudge_interval = 15, hard_block = Some False\<rparr> \<and>
   minutes_since_last_nudge scenario_A (15 * minute) = 999 \<and>
   check_for_nudge scenario_A (15 * minute) =
     Inr (scenario_A\<lparr>last_nudge_time := Some (15 * minute)\<rparr>,
          Some (NUDGE Info ''youtube.com'' (Friendly_reminder ''youtube.com'' 15 45) 15 15 60)) \<and>
   check_for_nudge scenario_A (55 * minute) =
     Inr (scenario_A\<lparr>last_nudge_time := Some (55 * minute)\<rparr>,
          Some (NUDGE Warning ''youtube.com'' (Running_low ''youtube.com'' 5 55) 55 55 60)) \<and>
   check_for_nudge scenario_A (70 * minute) =
     Inr (scenario_A\<lparr>last_nudge_time := Some (70 * minute)\<rparr>,
          Some (NUDGE Warning ''youtube.com'' (Exceeded_limit ''youtube.com'' 70 60) 70 70 60))"
  unfolding scenario_A_eq by (simp add: default_sites_def poll_defs)

theorem severity_selection_witness:
  "current_site scenario_A = Some ''youtube.com'' \<and> session_start scenario_A = Some 0 \<and>
   map_of (tracked_sites scenario_A) ''youtube.com'' =
     Some \<lparr>daily_limit = 60, nudge_interval = 15, hard_block = Some False\<rparr> \<and>
   minutes_since_last_nudge scenario_A (15 * minute) = 999 \<and>
   check_for_nudge scenario_A (15 * minute) =
     Inr (scenario_A\<lparr>last_nudge_time := Some (15 * minute)\<rparr>,
          Some (NUDGE Info ''youtube.com'' (Friendly_reminder ''youtube.com'' 15 45) 15 15 60)) \<and>
   check_for_nudge scenario_A (55 * minute) =
     Inr (scenario_A\<lparr>last_nudge_time := Some (55 * minute)\<rparr>,
          Some (NUDGE Warning ''youtube.com'' (Running_low ''youtube.com'' 5 55) 55 55 60)) \<and>
   check_for_nudge scenario_A (70 * minute) =
     Inr (scenario_A\<lparr>last_nudge_time := Some (70 * minute)\<rparr>,
          Some (NUDGE Warning ''youtube.com'' (Exceeded_limit ''youtube.com'' 70 60) 70 70 60))"
  using severity_selection [where s = scenario_A and site = "''youtube.com''" and started = 0
      and c = "\<lparr>daily_limit = 60, nudge_interval = 15, hard_block = Some False\<rparr>"
      and now = "15 * minute"]
    severity_selection [where s = scenario_A and site = "''youtube.com''" and started = 0
      and c = "\<lparr>daily_limit = 60, nudge_interval = 15, hard_block = Some False\<rparr>"
      and now = "55 * minute"]
    severity_selection [where s = scenario_A and site = "''youtube.com''" and started = 0
      and c = "\<lparr>daily_limit = 60, nudge_interval = 15, hard_block = Some False\<rparr>"
      and now = "70 * minute"]
  by - (rule scenario_A_severities)

section \<open>The branches of update_session\<close>

lemma reset_fields [simp]:
  "tracked_sites (reset_daily_stats s now) = tracked_sites s"
  "current_site (reset_daily_stats s now) = current_site s"
  "session_start (reset_daily_stats s now) = session_start s"
  "last_nudge_time (reset_daily_stats s now) = last_nudge_time s"
  "console (reset_daily_stats s now) = console s"
  "last_reset (reset_daily_stats s now) = date_of now"
  by (simp_all add: reset_daily_stats_def)

lemma update_session_open:
  assumes "truthy d" and "\<not> truthy (current_site s)"
  shows "update_session s d now =
    ((reset_daily_stats s now)\<lparr>current_site := d, session_start := Some now,
        console := console s @ [Started_viewing (shown d)]\<rparr>, Inr None)"
  using assms by (simp add: update_session_def Let_def)

lemma update_session_switch:
  assumes "truthy (current_site s)" and "d \<noteq> current_site s"
  shows "update_session s d now =
    (if truthy d
     then ((end_session (reset_daily_stats s now) now)
             \<lparr>current_site := d, session_start := Some now,
              console := console (end_session (reset_daily_stats s now) now) @
                [Switched_to (shown d)]\<rparr>,
           Inr None)
     else (end_session (reset_daily_stats s now) now, Inr None))"
  using assms by (simp add: update_session_def Let_def)

lemma update_session_ongoing:
  assumes "truthy (current_site s)" and "d = current_site s"
  shows "update_session s d now =
    (case check_for_nudge (reset_daily_stats s now) now of
       Inl e \<Rightarrow> (reset_daily_stats s now, Inl e)
     | Inr (s2, r) \<Rightarrow> (s2, Inr r))"
  using assms by (simp add: update_session_def Let_def)

lemma update_session_idle:
  assumes "\<not> truthy d" and "\<not> truthy (current_site s)"
  shows "update_session s d now = (reset_daily_stats s now, Inr None)"
  using assms by (simp add: update_session_def Let_def)

lemma update_session_cases:
  obtains (arrive) "truthy d" "\<not> truthy (current_site s)"
    | (idle) "\<not> truthy d" "\<not> truthy (current_site s)"
    | (switch) "truthy (current_site s)" "d \<noteq> current_site s"
    | (ongoing) "truthy (current_site s)" "d = current_site s"
  by blast

text \<open>Closing an open session: what \<^verbatim>\<open>_end_session\<close> writes.\<close>

lemma end_session_closes:
  assumes "current_site s = Some site" and "site \<noteq> []" and "session_start s = Some started"
  shows "end_session s now =
     s\<lparr>daily_stats :=
          AList.update site (float_add (dict_get (daily_stats s) site 0) (minutes_between now started))
            (daily_stats s),
        console := console s @
          [Ended_session site (minutes_between now started),
           Total_today site
             (float_add (dict_get (daily_stats s) site 0) (minutes_between now started))],
        current_site := None, session_start := None\<rparr>"
  using assms
  by (cases "map_of (daily_stats s) site")
     (simp_all add: end_session_def Let_def dict_get_def update_conv')

section \<open>The session fields go together\<close>

lemma paired_step:
  assumes "paired s"
  shows "paired (fst (update_session s d now))"
proof (cases rule: update_session_cases [of d s])
  case arrive
  then show ?thesis
    by (auto simp: update_session_open paired_def truthy_def split: option.splits)
next
  case idle
  with assms show ?thesis
    by (simp add: update_session_idle paired_def)
next
  case switch
  from switch(1) assms obtain site started where
    "current_site s = Some site" "site \<noteq> []" "session_start s = Some started"
    by (auto simp: truthy_def paired_def split: option.splits)
  then have "current_site (reset_daily_stats s now) = Some site" "site \<noteq> []"
    "session_start (reset_daily_stats s now) = Some started"
    by simp_all
  from end_session_closes [OF this] switch show ?thesis
    by (auto simp: update_session_switch paired_def truthy_def split: option.splits)
next
  case ongoing
  show ?thesis
  proof (cases "check_for_nudge (reset_daily_stats s now) now")
    case (Inl e)
    with ongoing assms show ?thesis by (simp add: update_session_ongoing paired_def)
  next
    case (Inr p)
    obtain s2 r where p: "p = (s2, r)" by (cases p)
    from check_for_nudge_state [OF Inr [unfolded p]] assms ongoing Inr p show ?thesis
      by (auto simp: update_session_ongoing paired_def)
  qed
qed

lemma paired_loop: "paired s \<Longrightarrow> paired (monitor_loop s polls)"
  by (induction polls arbitrary: s) (auto simp: paired_step)

text \<open>
  Claim C10. In every state the monitor reaches from its construction, whatever the
  detector reports and whatever the clock reads at each poll, \<^verbatim>\<open>current_site\<close> is
  absent exactly when \<^verbatim>\<open>session_start\<close> is absent (and the current site is never the
  empty string): at most one session is open, and its start time is there for
  \<^verbatim>\<open>check_for_nudge\<close>.
\<close>

theorem session_pairing:
  "(current_site (monitor_loop (initial_monitor sites t0) polls) = None) =
   (session_start (monitor_loop (initial_monitor sites t0) polls) = None) \<and>
   current_site (monitor_loop (initial_monitor sites t0) polls) \<noteq> Some []"
proof -
  have "paired (initial_monitor sites t0)" by (simp add: paired_def initial_monitor_def)
  then have "paired (monitor_loop (initial_monitor sites t0) polls)" by (rule paired_loop)
  then show ?thesis by (simp add: paired_def)
qed

section \<open>Polls of an ongoing session\<close>

lemma minutes_since_reset [simp]:
  "minutes_since_last_nudge (reset_daily_stats s now) t = minutes_since_last_nudge s t"
  by (simp add: minutes_since_last_nudge_def)

lemma update_session_ongoing_open:
  assumes "current_site s = Some site" and "site \<noteq> []" and "session_start s = Some started"
    and "map_of (tracked_sites s) site = Some c"
  shows "update_session s (Some site) now =
    (if daily_limit c \<le> total_today (reset_daily_stats s now) site now started \<and>
        hard_block c = Some True
     then (reset_daily_stats s now,
           Inr (Some (BLOCK site (Limit_reached site
                  (total_today (reset_daily_stats s now) site now started) (daily_limit c)))))
     else if nudge_interval c \<le> current_session_minutes now started \<and>
             nudge_interval c \<le> minutes_since_last_nudge s now
     then ((reset_daily_stats s now)\<lparr>last_nudge_time := Some now\<rparr>,
           Inr (Some (NUDGE (fst (nudge_message site (daily_limit c)
                                   (total_today (reset_daily_stats s now) site now started)
                                   (current_session_minutes now started)))
                      site
                      (snd (nudge_message site (daily_limit c)
                                   (total_today (reset_daily_stats s now) site now started)
                                   (current_session_minutes now started)))
                      (current_session_minutes now started)
                      (total_today (reset_daily_stats s now) site now started) (daily_limit c))))
     else (reset_daily_stats s now, Inr None))"
proof -
  have t: "truthy (current_site s)" using assms by (simp add: truthy_def)
  have o: "current_site (reset_daily_stats s now) = Some site" "site \<noteq> []"
    "session_start (reset_daily_stats s now) = Some started"
    "map_of (tracked_sites (reset_daily_stats s now)) site = Some c"
    using assms by simp_all
  show ?thesis
    unfolding update_session_ongoing [OF t assms(1) [symmetric]] check_for_nudge_open [OF o]
    by simp
qed

lemma reset_same_day: "date_of now = last_reset s \<Longrightarrow> reset_daily_stats s now = s"
  by (simp add: reset_daily_stats_def)

lemma total_today_mono:
  "now \<le> now' \<Longrightarrow> total_today s site now started \<le> total_today s site now' started"
  unfolding total_today_def current_session_minutes_def
  by (intro float_add_mono minutes_between_mono) simp_all


lemma update_session_event:
  assumes "produced (snd (update_session s d now)) = Some e"
  obtains site started c where "current_site s = Some site" and "site \<noteq> []" and "d = Some site"
    and "session_start s = Some started" and "map_of (tracked_sites s) site = Some c"
proof (cases rule: update_session_cases [of d s])
  case arrive
  with assms show ?thesis by (simp add: update_session_open)
next
  case idle
  with assms show ?thesis by (simp add: update_session_idle)
next
  case switch
  with assms show ?thesis by (simp add: update_session_switch split: if_splits)
next
  case ongoing
  show ?thesis
  proof (cases "check_for_nudge (reset_daily_stats s now) now")
    case (Inl err)
    with assms ongoing show ?thesis by (simp add: update_session_ongoing)
  next
    case (Inr p)
    obtain s2 r where p: "p = (s2, r)" by (cases p)
    with assms ongoing Inr have "check_for_nudge (reset_daily_stats s now) now = Inr (s2, Some e)"
      by (simp add: update_session_ongoing)
    then show ?thesis
      using ongoing that by (elim check_for_nudge_event) simp
  qed
qed

lemma is_nudge_Some: "is_nudge r \<Longrightarrow> \<exists>e. r = Some e"
  by (cases r) simp_all

lemma is_block_Some: "is_block r \<Longrightarrow> \<exists>e. r = Some e"
  by (cases r) simp_all

lemma no_event_keeps_last_nudge:
  assumes "\<not> is_nudge (produced (snd (update_session s d now)))"
  shows "last_nudge_time (fst (update_session s d now)) = last_nudge_time s"
proof (cases rule: update_session_cases [of d s])
  case arrive
  then show ?thesis by (simp add: update_session_open)
next
  case idle
  then show ?thesis by (simp add: update_session_idle)
next
  case switch
  then show ?thesis
    by (simp add: update_session_switch end_session_def Let_def split: option.splits)
next
  case ongoing
  show ?thesis
  proof (cases "check_for_nudge (reset_daily_stats s now) now")
    case (Inl err)
    with ongoing show ?thesis by (simp add: update_session_ongoing)
  next
    case (Inr p)
    obtain s2 r where p: "p = (s2, r)" by (cases p)
    from check_for_nudge_state [OF Inr [unfolded p]] assms ongoing Inr p show ?thesis
      by (auto simp: update_session_ongoing)
  qed
qed

lemma tracked_sites_step [simp]: "tracked_sites (fst (update_session s d now)) = tracked_sites s"
proof (cases rule: update_session_cases [of d s])
  case arrive
  then show ?thesis by (simp add: update_session_open)
next
  case idle
  then show ?thesis by (simp add: update_session_idle)
next
  case switch
  then show ?thesis
    by (simp add: update_session_switch end_session_def Let_def split: option.splits)
next
  case ongoing
  show ?thesis
  proof (cases "check_for_nudge (reset_daily_stats s now) now")
    case (Inl err)
    with ongoing show ?thesis by (simp add: update_session_ongoing)
  next
    case (Inr p)
    obtain s2 r where p: "p = (s2, r)" by (cases p)
    from check_for_nudge_state [OF Inr [unfolded p]] ongoing Inr p show ?thesis
      by (auto simp: update_session_ongoing)
  qed
qed

lemma tracked_sites_loop [simp]: "tracked_sites (monitor_loop s polls) = tracked_sites s"
  by (induction polls arbitrary: s) auto

lemma quiet_polls_keep_last_nudge:
  "nudge_times s polls = [] \<Longrightarrow> last_nudge_time (monitor_loop s polls) = last_nudge_time s"
proof (induction polls arbitrary: s)
  case Nil
  then show ?case by simp
next
  case (Cons p polls)
  obtain d now where p: "p = (d, now)" by (cases p)
  from Cons.prems have quiet: "\<not> is_nudge (produced (snd (update_session s d now)))"
    and rest: "nudge_times (fst (update_session s d now)) polls = []"
    by (simp_all add: p split: if_splits)
  from Cons.IH [OF rest] no_event_keeps_last_nudge [OF quiet] show ?case
    by (simp add: p)
qed

text \<open>The gate of a nudge, read off the state before the poll.\<close>

lemma nudge_gate:
  assumes "is_nudge (produced (snd (update_session s d now)))"
  shows "\<exists>site started c. current_site s = Some site \<and> d = Some site \<and>
           session_start s = Some started \<and> map_of (tracked_sites s) site = Some c \<and>
           \<not> (daily_limit c \<le> total_today (reset_daily_stats s now) site now started \<and>
              hard_block c = Some True) \<and>
           nudge_interval c \<le> current_session_minutes now started \<and>
           nudge_interval c \<le> minutes_since_last_nudge s now"
    and "last_nudge_time (fst (update_session s d now)) = Some now"
proof -
  from assms obtain e where "produced (snd (update_session s d now)) = Some e"
    using is_nudge_Some by blast
  then obtain site started c where o: "current_site s = Some site" "site \<noteq> []"
    "session_start s = Some started" "map_of (tracked_sites s) site = Some c" and d: "d = Some site"
    by (rule update_session_event)
  note step = update_session_ongoing_open [OF o, of now]
  from assms have g: "\<not> (daily_limit c \<le> total_today (reset_daily_stats s now) site now started \<and>
              hard_block c = Some True) \<and>
           nudge_interval c \<le> current_session_minutes now started \<and>
           nudge_interval c \<le> minutes_since_last_nudge s now"
    unfolding d step by (auto split: if_splits)
  with o d show "\<exists>site started c. current_site s = Some site \<and> d = Some site \<and>
           session_start s = Some started \<and> map_of (tracked_sites s) site = Some c \<and>
           \<not> (daily_limit c \<le> total_today (reset_daily_stats s now) site now started \<and>
              hard_block c = Some True) \<and>
           nudge_interval c \<le> current_session_minutes now started \<and>
           nudge_interval c \<le> minutes_since_last_nudge s now"
    by blast
  from g show "last_nudge_time (fst (update_session s d now)) = Some now"
    unfolding d step by auto
qed

lemma nudge_fires:
  assumes "current_site s = Some site" and "site \<noteq> []" and "session_start s = Some started"
    and "map_of (tracked_sites s) site = Some c"
    and "\<not> (daily_limit c \<le> total_today (reset_daily_stats s now) site now started \<and>
              hard_block c = Some True)"
    and "nudge_interval c \<le> current_session_minutes now started"
    and "nudge_interval c \<le> minutes_since_last_nudge s now"
  shows "is_nudge (produced (snd (update_session s (Some site) now)))"
  using assms(5-7) unfolding update_session_ongoing_open [OF assms(1-4)] by simp

section \<open>The scenarios, evaluated\<close>

lemma scenario_B_eq:
  "scenario_B =
     \<lparr>tracked_sites = hard_sites, current_site = Some ''youtube.com'',
      session_start = Some (55 * minute), last_nudge_time = None,
      daily_stats = [(''youtube.com'', 55)], last_reset = 0,
      console = [Started_viewing ''youtube.com'', Ended_session ''youtube.com'' 55,
                 Total_today ''youtube.com'' 55, Started_viewing ''youtube.com'']\<rparr>"
  by (simp add: scenario_B_def initial_monitor_def poll_defs)

lemma scenario_long_eq:
  "scenario_long =
     \<lparr>tracked_sites = long_sites, current_site = Some ''youtube.com'',
      session_start = Some 0, last_nudge_time = None, daily_stats = [], last_reset = 0,
      console = [Started_viewing ''youtube.com'']\<rparr>"
  by (simp add: scenario_long_def initial_monitor_def poll_defs)

lemma scenario_B_block:
  "update_session scenario_B (Some ''youtube.com'') (70 * minute) =
     (scenario_B, Inr (Some (BLOCK ''youtube.com'' (Limit_reached ''youtube.com'' 70 60))))"
  unfolding scenario_B_eq by (simp add: hard_sites_def poll_defs)

lemma scenario_long_quiet:
  "update_session scenario_long (Some ''youtube.com'') (1000 * minute) = (scenario_long, Inr None)"
  unfolding scenario_long_eq by (simp add: long_sites_def poll_defs)

section \<open>Where the rounding shows\<close>

text \<open>
  Sessions of 3.8 seconds and of 3596.2 seconds, in seconds and in minutes, and the sums
  and differences that \<^verbatim>\<open>check_for_nudge\<close> computes from them. Each value is the float
  nearest to the exact result.
\<close>

lemma seconds_3_8: "total_seconds 3800000 = 4278419646001971 / 1125899906842624"
proof -
  have "float_round (19 / 5) = 4278419646001971 / 1125899906842624"
    using float_round_near [of "19 / 5" "1" 8556839292003942]
    by (simp add: power_int_minus_divide)
  then show ?thesis by (simp add: total_seconds_def float_div_def)
qed

lemma minutes_3_8: "float_div (4278419646001971 / 1125899906842624) 60 = 2281823811201051 / 36028797018963968"
proof -
  have "float_round (1426139882000657 / 22517998136852480) = 2281823811201051 / 36028797018963968"
    using float_round_near [of "1426139882000657 / 22517998136852480" "- 4" 4563647622402102]
    by (simp add: power_int_minus_divide)
  then show ?thesis by (simp add: float_div_def)
qed

lemma first_total: "float_add 0 (2281823811201051 / 36028797018963968) = 2281823811201051 / 36028797018963968"
proof -
  have "float_round (2281823811201051 / 36028797018963968) = 2281823811201051 / 36028797018963968"
    using float_round_near [of "2281823811201051 / 36028797018963968" "- 4" 4563647622402102]
    by (simp add: power_int_minus_divide)
  then show ?thesis by (simp add: float_add_def)
qed

lemma seconds_3596_2: "total_seconds 3596200000 = 3954063715808051 / 1099511627776"
proof -
  have "float_round (17981 / 5) = 3954063715808051 / 1099511627776"
    using float_round_near [of "17981 / 5" "11" 7908127431616102]
    by (simp add: power_int_minus_divide)
  then show ?thesis by (simp add: total_seconds_def float_div_def)
qed

lemma minutes_3596_2: "float_div (3954063715808051 / 1099511627776) 60 = 8435335927057175 / 140737488355328"
proof -
  have "float_round (3954063715808051 / 65970697666560) = 8435335927057175 / 140737488355328"
    using float_round_near [of "3954063715808051 / 65970697666560" "5" 8435335927057175]
    by (simp add: power_int_minus_divide)
  then show ?thesis by (simp add: float_div_def)
qed

lemma total_3600: "float_add (2281823811201051 / 36028797018963968) (8435335927057175 / 140737488355328) = 8444249301319679 / 140737488355328"
proof -
  have "float_round (2161727821137837851 / 36028797018963968) = 8444249301319679 / 140737488355328"
    using float_round_near [of "2161727821137837851 / 36028797018963968" "5" 8444249301319679]
    by (simp add: power_int_minus_divide)
  then show ?thesis by (simp add: float_add_def)
qed

lemma remaining_3600: "float_sub 60 (8444249301319679 / 140737488355328) = 1 / 140737488355328"
proof -
  have "float_round (1 / 140737488355328) = 1 / 140737488355328"
    using float_round_near [of "1 / 140737488355328" "- 47" 4503599627370496]
    by (simp add: power_int_minus_divide)
  then show ?thesis by (simp add: float_sub_def)
qed

lemma seconds_2996_2: "total_seconds 2996200000 = 3294356739142451 / 1099511627776"
proof -
  have "float_round (14981 / 5) = 3294356739142451 / 1099511627776"
    using float_round_near [of "14981 / 5" "11" 6588713478284902]
    by (simp add: power_int_minus_divide)
  then show ?thesis by (simp add: total_seconds_def float_div_def)
qed

lemma minutes_2996_2: "float_div (3294356739142451 / 1099511627776) 60 = 7027961043503895 / 140737488355328"
proof -
  have "float_round (3294356739142451 / 65970697666560) = 7027961043503895 / 140737488355328"
    using float_round_near [of "3294356739142451 / 65970697666560" "5" 7027961043503895]
    by (simp add: power_int_minus_divide)
  then show ?thesis by (simp add: float_div_def)
qed

lemma total_3000: "float_add (2281823811201051 / 36028797018963968) (7027961043503895 / 140737488355328) = 7036874417766399 / 140737488355328"
proof -
  have "float_round (1801439850948198171 / 36028797018963968) = 7036874417766399 / 140737488355328"
    using float_round_near [of "1801439850948198171 / 36028797018963968" "5" 7036874417766399]
    by (simp add: power_int_minus_divide)
  then show ?thesis by (simp add: float_add_def)
qed

lemma remaining_3000: "float_sub 60 (7036874417766399 / 140737488355328) = 1407374883553281 / 140737488355328"
proof -
  have "float_round (1407374883553281 / 140737488355328) = 1407374883553281 / 140737488355328"
    using float_round_near [of "1407374883553281 / 140737488355328" "3" 5629499534213124]
    by (simp add: power_int_minus_divide)
  then show ?thesis by (simp add: float_sub_def)
qed

lemmas rounding_defs =
  update_session_def reset_daily_stats_def date_of_def truthy_def shown_def end_session_def
  check_for_nudge_def current_session_minutes_def total_today_def minutes_since_last_nudge_def
  nudge_message_def minutes_between_def dict_get_def Let_def

lemma scenario_rounding_eq:
  "scenario_rounding =
     \<lparr>tracked_sites = hard_sites, current_site = Some ''youtube.com'',
      session_start = Some 3800000, last_nudge_time = None,
      daily_stats = [(''youtube.com'', 2281823811201051 / 36028797018963968)], last_reset = 0,
      console = [Started_viewing ''youtube.com'',
                 Ended_session ''youtube.com'' (2281823811201051 / 36028797018963968),
                 Total_today ''youtube.com'' (2281823811201051 / 36028797018963968),
                 Started_viewing ''youtube.com'']\<rparr>"
  by (simp add: scenario_rounding_def initial_monitor_def rounding_defs
      seconds_3_8 minutes_3_8 first_total)

text \<open>
  An hour after the first session began, 3.8 seconds of closed session and 3596.2
  seconds of open session add up to 59.99999999999999 minutes, below the limit of 60:
  the poll produces no BLOCK but a NUDGE, with 7.105427357601002e-15 minutes remaining.
\<close>

lemma rounding_poll_3600:
  "update_session scenario_rounding (Some ''youtube.com'') 3600000000 =
     (scenario_rounding\<lparr>last_nudge_time := Some 3600000000\<rparr>,
      Inr (Some (NUDGE Warning ''youtube.com''
                   (Running_low ''youtube.com'' (1 / 140737488355328)
                      (8435335927057175 / 140737488355328))
                   (8435335927057175 / 140737488355328)
                   (8444249301319679 / 140737488355328) 60)))"
  unfolding scenario_rounding_eq
  by (simp add: hard_sites_def rounding_defs seconds_3596_2 minutes_3596_2 total_3600
      remaining_3600)

text \<open>
  After fifty minutes the sum is 49.99999999999999 minutes and the remaining time
  10.000000000000007 minutes, above 10: the NUDGE is a friendly reminder.
\<close>

lemma rounding_poll_3000:
  "update_session scenario_rounding (Some ''youtube.com'') 3000000000 =
     (scenario_rounding\<lparr>last_nudge_time := Some 3000000000\<rparr>,
      Inr (Some (NUDGE Info ''youtube.com''
                   (Friendly_reminder ''youtube.com'' (7027961043503895 / 140737488355328)
                      (1407374883553281 / 140737488355328))
                   (7027961043503895 / 140737488355328)
                   (7036874417766399 / 140737488355328) 60)))"
  unfolding scenario_rounding_eq
  by (simp add: hard_sites_def rounding_defs seconds_2996_2 minutes_2996_2 total_3000
      remaining_3000)

section \<open>The BLOCK decision\<close>

lemma block_iff:
  assumes "current_site s = Some site" and "site \<noteq> []" and "session_start s = Some started"
    and "map_of (tracked_sites s) site = Some c"
  shows "is_block (produced (snd (update_session s (Some site) now))) =
           (daily_limit c \<le> total_today (reset_daily_stats s now) site now started \<and>
            hard_block c = Some True)"
  by (simp add: update_session_ongoing_open [OF assms])

lemma block_state:
  assumes "current_site s = Some site" and "site \<noteq> []" and "session_start s = Some started"
    and "map_of (tracked_sites s) site = Some c"
    and "is_block (produced (snd (update_session s (Some site) now)))"
  shows "update_session s (Some site) now =
           (reset_daily_stats s now,
            Inr (Some (BLOCK site (Limit_reached site
                   (total_today (reset_daily_stats s now) site now started) (daily_limit c)))))"
  using assms(5) unfolding block_iff [OF assms(1-4)]
  by (simp add: update_session_ongoing_open [OF assms(1-4)])

lemma block_refire:
  assumes "current_site s = Some site" and "site \<noteq> []" and "session_start s = Some started"
    and "map_of (tracked_sites s) site = Some c"
    and fired: "is_block (produced (snd (update_session s (Some site) now)))"
    and later: "now \<le> now'" and day: "date_of now' = date_of now"
  shows "is_block (produced (snd (update_session (fst (update_session s (Some site) now))
                                    (Some site) now')))"
proof -
  let ?s1 = "reset_daily_stats s now"
  have st: "fst (update_session s (Some site) now) = ?s1"
    by (simp add: block_state [OF assms(1-5)])
  have o: "current_site ?s1 = Some site" "site \<noteq> []" "session_start ?s1 = Some started"
    "map_of (tracked_sites ?s1) site = Some c"
    using assms(1-4) by simp_all
  have same: "reset_daily_stats ?s1 now' = ?s1" by (rule reset_same_day) (simp add: day)
  from fired have cond: "daily_limit c \<le> total_today ?s1 site now started"
      "hard_block c = Some True"
    unfolding block_iff [OF assms(1-4)] by simp_all
  have "daily_limit c \<le> total_today ?s1 site now' started"
    using cond(1) total_today_mono [OF later, of ?s1 site started] by simp
  with cond(2) show ?thesis
    unfolding st block_iff [OF o] same by simp
qed

text \<open>
  Claim C2. On a poll of an ongoing session (the detector reports the current site,
  which is configured), a BLOCK is produced exactly when, after the poll's date check,
  total_today \<ge> daily_limit and hard_block is true, whatever the nudge gate says;
  total_today is the float that \<^verbatim>\<open>check_for_nudge\<close> computes, the accumulated total
  plus the minutes of the session, rounded. The
  poll then leaves the monitor as the date check left it: \<^verbatim>\<open>last_nudge_time\<close> is
  untouched, and on an unchanged date the whole monitor is. A later poll of the same
  day produces the BLOCK again.
\<close>

theorem block_decision:
  assumes "current_site s = Some site" and "site \<noteq> []" and "session_start s = Some started"
    and "map_of (tracked_sites s) site = Some c"
  shows "is_block (produced (snd (update_session s (Some site) now))) =
           (daily_limit c \<le> total_today (reset_daily_stats s now) site now started \<and>
            hard_block c = Some True) \<and>
         (is_block (produced (snd (update_session s (Some site) now))) \<longrightarrow>
            update_session s (Some site) now =
              (reset_daily_stats s now,
               Inr (Some (BLOCK site (Limit_reached site
                      (total_today (reset_daily_stats s now) site now started)
                      (daily_limit c))))) \<and>
            last_nudge_time (fst (update_session s (Some site) now)) = last_nudge_time s \<and>
            (date_of now = last_reset s \<longrightarrow> fst (update_session s (Some site) now) = s)) \<and>
         (is_block (produced (snd (update_session s (Some site) now))) \<and> now \<le> now' \<and>
          date_of now' = date_of now \<longrightarrow>
            is_block (produced (snd (update_session (fst (update_session s (Some site) now))
                                       (Some site) now'))))"
proof (intro conjI impI)
  show "is_block (produced (snd (update_session s (Some site) now))) =
           (daily_limit c \<le> total_today (reset_daily_stats s now) site now started \<and>
            hard_block c = Some True)"
    by (rule block_iff [OF assms])
next
  assume b: "is_block (produced (snd (update_session s (Some site) now)))"
  show "update_session s (Some site) now =
              (reset_daily_stats s now,
               Inr (Some (BLOCK site (Limit_reached site
                      (total_today (reset_daily_stats s now) site now started)
                      (daily_limit c)))))"
    by (rule block_state [OF assms b])
  then show "last_nudge_time (fst (update_session s (Some site) now)) = last_nudge_time s"
    by simp
next
  assume b: "is_block (produced (snd (update_session s (Some site) now)))"
    and "date_of now = last_reset s"
  then show "fst (update_session s (Some site) now) = s"
    by (simp add: block_state [OF assms b] reset_same_day)
next
  assume "is_block (produced (snd (update_session s (Some site) now))) \<and> now \<le> now' \<and>
          date_of now' = date_of now"
  then show "is_block (produced (snd (update_session (fst (update_session s (Some site) now))
                                       (Some site) now')))"
    using block_refire [OF assms] by blast
qed

lemma scenario_B_run:
  "current_site scenario_B = Some ''youtube.com'' \<and>
   session_start scenario_B = Some (55 * minute) \<and>
   map_of (tracked_sites scenario_B) ''youtube.com'' =
     Some \<lparr>daily_limit = 60, nudge_interval = 15, hard_block = Some True\<rparr> \<and>
   update_session scenario_B (Some ''youtube.com'') (70 * minute) =
     (scenario_B, Inr (Some (BLOCK ''youtube.com'' (Limit_reached ''youtube.com'' 70 60)))) \<and>
   70 * minute \<le> 71 * minute \<and>
   date_of (71 * minute) = date_of (70 * minute) \<and>
   update_session
     (fst (update_session scenario_B (Some ''youtube.com'') (70 * minute)))
     (Some ''youtube.com'') (71 * minute) =
     (scenario_B, Inr (Some (BLOCK ''youtube.com'' (Limit_reached ''youtube.com'' 71 60))))"
proof -
  have "update_session scenario_B (Some ''youtube.com'') (71 * minute) =
     (scenario_B, Inr (Some (BLOCK ''youtube.com'' (Limit_reached ''youtube.com'' 71 60))))"
    unfolding scenario_B_eq by (simp add: hard_sites_def poll_defs)
  moreover have "date_of (71 * minute) = date_of (70 * minute)"
    by (simp add: date_of_def minute_def)
  ultimately show ?thesis
    by (simp add: scenario_B_block) (simp add: scenario_B_eq hard_sites_def minute_def)
qed

theorem block_decision_witness:
  "current_site scenario_B = Some ''youtube.com'' \<and>
   session_start scenario_B = Some (55 * minute) \<and>
   map_of (tracked_sites scenario_B) ''youtube.com'' =
     Some \<lparr>daily_limit = 60, nudge_interval = 15, hard_block = Some True\<rparr> \<and>
   update_session scenario_B (Some ''youtube.com'') (70 * minute) =
     (scenario_B, Inr (Some (BLOCK ''youtube.com'' (Limit_reached ''youtube.com'' 70 60)))) \<and>
   70 * minute \<le> 71 * minute \<and>
   date_of (71 * minute) = date_of (70 * minute) \<and>
   update_session
     (fst (update_session scenario_B (Some ''youtube.com'') (70 * minute)))
     (Some ''youtube.com'') (71 * minute) =
     (scenario_B, Inr (Some (BLOCK ''youtube.com'' (Limit_reached ''youtube.com'' 71 60))))"
  using block_decision [where s = scenario_B and site = "''youtube.com''"
      and started = "55 * minute"
      and c = "\<lparr>daily_limit = 60, nudge_interval = 15, hard_block = Some True\<rparr>"
      and now = "70 * minute" and now' = "71 * minute"]
  by - (rule scenario_B_run)

section \<open>The cadence of nudges\<close>

lemma since_case:
  "(I \<le> minutes_since_last_nudge s now) \<Longrightarrow>
   (case last_nudge_time s of None \<Rightarrow> True | Some l \<Rightarrow> I \<le> minutes_between now l)"
  by (simp add: minutes_since_last_nudge_def split: option.splits)

lemma case_since:
  "last_nudge_time s = None \<longrightarrow> I \<le> 999 \<Longrightarrow>
   (case last_nudge_time s of None \<Rightarrow> True | Some l \<Rightarrow> I \<le> minutes_between now l) \<Longrightarrow>
   I \<le> minutes_since_last_nudge s now"
  by (simp add: minutes_since_last_nudge_def split: option.splits)

lemma nudge_spacing:
  assumes first: "is_nudge (produced (snd (update_session s d now)))"
    and quiet: "nudge_times (fst (update_session s d now)) polls = []"
    and second: "is_nudge (produced (snd (update_session
                   (monitor_loop (fst (update_session s d now)) polls) d2 t2)))"
  shows "\<exists>site c. d2 = Some site \<and> map_of (tracked_sites s) site = Some c \<and>
           nudge_interval c \<le> minutes_between t2 now"
proof -
  let ?s1 = "fst (update_session s d now)"
  let ?s2 = "monitor_loop ?s1 polls"
  have "last_nudge_time ?s1 = Some now" using first by (rule nudge_gate(2))
  with quiet_polls_keep_last_nudge [OF quiet] have last: "last_nudge_time ?s2 = Some now"
    by simp
  from nudge_gate(1) [OF second] obtain site started c where
    g: "d2 = Some site" "map_of (tracked_sites ?s2) site = Some c"
       "nudge_interval c \<le> minutes_since_last_nudge ?s2 t2"
    by blast
  from g(3) last have "nudge_interval c \<le> minutes_between t2 now"
    by (simp add: minutes_since_last_nudge_def)
  with g(1,2) show ?thesis by simp
qed

text \<open>
  The gate of a nudge over all polls. A NUDGE is produced only on an ongoing session of
  a configured site, when no BLOCK is due, the session has lasted the nudge interval and
  the last nudge (if there was one) lies at least the interval back; the poll then sets
  \<^verbatim>\<open>last_nudge_time\<close> to its clock, and no other poll changes it. Conversely, on an
  ongoing session with no BLOCK due, the NUDGE is produced whenever both gates hold,
  provided the interval is at most 999 minutes when no nudge has fired yet. Hence,
  after a nudge, whatever polls follow without a nudge, the next nudge comes at least
  the interval of its site after it.
\<close>

lemma nudge_gate_law:
  "(is_nudge (produced (snd (update_session s d now))) \<longrightarrow>
      (\<exists>site started c. current_site s = Some site \<and> d = Some site \<and>
         session_start s = Some started \<and> map_of (tracked_sites s) site = Some c \<and>
         \<not> (daily_limit c \<le> total_today (reset_daily_stats s now) site now started \<and>
            hard_block c = Some True) \<and>
         nudge_interval c \<le> current_session_minutes now started \<and>
         (case last_nudge_time s of None \<Rightarrow> True
          | Some l \<Rightarrow> nudge_interval c \<le> minutes_between now l)) \<and>
      last_nudge_time (fst (update_session s d now)) = Some now) \<and>
   (\<not> is_nudge (produced (snd (update_session s d now))) \<longrightarrow>
      last_nudge_time (fst (update_session s d now)) = last_nudge_time s) \<and>
   (\<forall>site started c.
      current_site s = Some site \<and> site \<noteq> [] \<and> session_start s = Some started \<and>
      map_of (tracked_sites s) site = Some c \<and>
      \<not> (daily_limit c \<le> total_today (reset_daily_stats s now) site now started \<and>
         hard_block c = Some True) \<and>
      (last_nudge_time s = None \<longrightarrow> nudge_interval c \<le> 999) \<and>
      nudge_interval c \<le> current_session_minutes now started \<and>
      (case last_nudge_time s of None \<Rightarrow> True
       | Some l \<Rightarrow> nudge_interval c \<le> minutes_between now l) \<longrightarrow>
      is_nudge (produced (snd (update_session s (Some site) now)))) \<and>
   (is_nudge (produced (snd (update_session s d now))) \<and>
    nudge_times (fst (update_session s d now)) polls = [] \<and>
    is_nudge (produced (snd (update_session
                (monitor_loop (fst (update_session s d now)) polls) d2 t2))) \<longrightarrow>
      (\<exists>site c. d2 = Some site \<and> map_of (tracked_sites s) site = Some c \<and>
         nudge_interval c \<le> minutes_between t2 now))"
proof (intro conjI impI allI)
  assume n: "is_nudge (produced (snd (update_session s d now)))"
  from nudge_gate(1) [OF n] obtain site started c where
    "current_site s = Some site \<and> d = Some site \<and>
         session_start s = Some started \<and> map_of (tracked_sites s) site = Some c \<and>
         \<not> (daily_limit c \<le> total_today (reset_daily_stats s now) site now started \<and>
            hard_block c = Some True) \<and>
         nudge_interval c \<le> current_session_minutes now started"
    and "nudge_interval c \<le> minutes_since_last_nudge s now"
    by blast
  with since_case show "\<exists>site started c. current_site s = Some site \<and> d = Some site \<and>
         session_start s = Some started \<and> map_of (tracked_sites s) site = Some c \<and>
         \<not> (daily_limit c \<le> total_today (reset_daily_stats s now) site now started \<and>
            hard_block c = Some True) \<and>
         nudge_interval c \<le> current_session_minutes now started \<and>
         (case last_nudge_time s of None \<Rightarrow> True
          | Some l \<Rightarrow> nudge_interval c \<le> minutes_between now l)"
    by blast
next
  assume "is_nudge (produced (snd (update_session s d now)))"
  then show "last_nudge_time (fst (update_session s d now)) = Some now"
    by (rule nudge_gate(2))
next
  assume "\<not> is_nudge (produced (snd (update_session s d now)))"
  then show "last_nudge_time (fst (update_session s d now)) = last_nudge_time s"
    by (rule no_event_keeps_last_nudge)
next
  fix site started c
  assume a: "current_site s = Some site \<and> site \<noteq> [] \<and> session_start s = Some started \<and>
      map_of (tracked_sites s) site = Some c \<and>
      \<not> (daily_limit c \<le> total_today (reset_daily_stats s now) site now started \<and>
         hard_block c = Some True) \<and>
      (last_nudge_time s = None \<longrightarrow> nudge_interval c \<le> 999) \<and>
      nudge_interval c \<le> current_session_minutes now started \<and>
      (case last_nudge_time s of None \<Rightarrow> True
       | Some l \<Rightarrow> nudge_interval c \<le> minutes_between now l)"
  then have "nudge_interval c \<le> minutes_since_last_nudge s now"
    by (intro case_since) blast+
  with a show "is_nudge (produced (snd (update_session s (Some site) now)))"
    by (intro nudge_fires [of s site started c]) simp_all
next
  assume "is_nudge (produced (snd (update_session s d now))) \<and>
    nudge_times (fst (update_session s d now)) polls = [] \<and>
    is_nudge (produced (snd (update_session
                (monitor_loop (fst (update_session s d now)) polls) d2 t2)))"
  then show "\<exists>site c. d2 = Some site \<and> map_of (tracked_sites s) site = Some c \<and>
         nudge_interval c \<le> minutes_between t2 now"
    using nudge_spacing by blast
qed

lemma scenario_A_poll_15:
  "update_session scenario_A (Some ''youtube.com'') (15 * minute) =
     (scenario_A\<lparr>last_nudge_time := Some (15 * minute)\<rparr>,
      Inr (Some (NUDGE Info ''youtube.com'' (Friendly_reminder ''youtube.com'' 15 45) 15 15 60)))"
  unfolding scenario_A_eq by (simp add: default_sites_def poll_defs)

lemma scenario_A_poll_16:
  "update_session (scenario_A\<lparr>last_nudge_time := Some (15 * minute)\<rparr>) (Some ''youtube.com'')
     (16 * minute) = (scenario_A\<lparr>last_nudge_time := Some (15 * minute)\<rparr>, Inr None)"
  unfolding scenario_A_eq by (simp add: default_sites_def poll_defs)

lemma scenario_A_poll_29:
  "update_session (scenario_A\<lparr>last_nudge_time := Some (15 * minute)\<rparr>) (Some ''youtube.com'')
     (29 * minute) = (scenario_A\<lparr>last_nudge_time := Some (15 * minute)\<rparr>, Inr None)"
  unfolding scenario_A_eq by (simp add: default_sites_def poll_defs)

lemma scenario_A_poll_30:
  "update_session (scenario_A\<lparr>last_nudge_time := Some (15 * minute)\<rparr>) (Some ''youtube.com'')
     (30 * minute) =
     (scenario_A\<lparr>last_nudge_time := Some (30 * minute)\<rparr>,
      Inr (Some (NUDGE Info ''youtube.com'' (Friendly_reminder ''youtube.com'' 30 30) 30 30 60)))"
  unfolding scenario_A_eq by (simp add: default_sites_def poll_defs)

text \<open>
  Scenario A of the specification: the first nudge at minute 15, none at minutes 16 and
  29, the second at minute 30.
\<close>

lemma scenario_A_run:
  "is_nudge (produced (snd (update_session scenario_A (Some ''youtube.com'') (15 * minute)))) \<and>
   last_nudge_time (fst (update_session scenario_A (Some ''youtube.com'') (15 * minute))) =
     Some (15 * minute) \<and>
   nudge_times (fst (update_session scenario_A (Some ''youtube.com'') (15 * minute)))
     [(Some ''youtube.com'', 16 * minute), (Some ''youtube.com'', 29 * minute)] = [] \<and>
   is_nudge (produced (snd (update_session
     (monitor_loop (fst (update_session scenario_A (Some ''youtube.com'') (15 * minute)))
        [(Some ''youtube.com'', 16 * minute), (Some ''youtube.com'', 29 * minute)])
     (Some ''youtube.com'') (30 * minute)))) \<and>
   minutes_between (30 * minute) (15 * minute) = 15"
proof -
  have "minutes_between (30 * minute) (15 * minute) = 15"
    by (simp add: minutes_between_def total_seconds_def float_div_def minute_def)
  then show ?thesis
    by (simp add: scenario_A_poll_15 scenario_A_poll_16 scenario_A_poll_29 scenario_A_poll_30)
qed

text \<open>
  When no nudge has fired yet, \<^verbatim>\<open>check_for_nudge\<close> takes the minutes since the last
  nudge to be 999. Against a nudge interval above 999 minutes the second gate then
  fails on every poll, and since only a nudge sets \<^verbatim>\<open>last_nudge_time\<close>, it fails for
  good: the session is never nudged, however long it lasts.
\<close>

lemma sentinel_blocks_nudge:
  assumes "current_site s = Some site" and "site \<noteq> []" and "session_start s = Some started"
    and "map_of (tracked_sites s) site = Some c"
    and "last_nudge_time s = None" and "999 < nudge_interval c"
  shows "\<not> is_nudge (produced (snd (update_session s (Some site) now)))"
    and "last_nudge_time (fst (update_session s (Some site) now)) = None"
  using assms(5,6) unfolding update_session_ongoing_open [OF assms(1-4)]
  by (simp_all add: minutes_since_last_nudge_def)

text \<open>
  Claim C1. The claim takes the minutes since the last nudge to be effectively infinite
  when no nudge has fired, so that the first nudge of a session comes as soon as the
  session has lasted its interval. The code takes them to be 999. Failing input: a
  site with a daily limit of 2000 minutes, a nudge interval of 1000 minutes and no hard
  block; a session on it has been open for 1000 minutes (and then for any longer time)
  and no nudge has fired. No BLOCK is due, the session has lasted the interval, and by
  the claim the poll produces a NUDGE; the code produces nothing and leaves the monitor
  as it was, at that poll and at every later one.
\<close>

theorem nudge_sentinel_999:
  "current_site scenario_long = Some ''youtube.com'' \<and>
   session_start scenario_long = Some 0 \<and>
   last_nudge_time scenario_long = None \<and>
   map_of (tracked_sites scenario_long) ''youtube.com'' =
     Some \<lparr>daily_limit = 2000, nudge_interval = 1000, hard_block = Some False\<rparr> \<and>
   current_session_minutes (1000 * minute) 0 = 1000 \<and>
   total_today scenario_long ''youtube.com'' (1000 * minute) 0 = 1000 \<and>
   minutes_since_last_nudge scenario_long (1000 * minute) = 999 \<and>
   update_session scenario_long (Some ''youtube.com'') (1000 * minute) =
     (scenario_long, Inr None) \<and>
   (\<forall>now. \<not> is_nudge (produced (snd (update_session scenario_long (Some ''youtube.com'') now))) \<and>
          last_nudge_time (fst (update_session scenario_long (Some ''youtube.com'') now)) = None)"
proof -
  have o: "current_site scenario_long = Some ''youtube.com''" "''youtube.com'' \<noteq> []"
    "session_start scenario_long = Some 0"
    "map_of (tracked_sites scenario_long) ''youtube.com'' =
       Some \<lparr>daily_limit = 2000, nudge_interval = 1000, hard_block = Some False\<rparr>"
    "last_nudge_time scenario_long = None"
    by (simp_all add: scenario_long_eq long_sites_def)
  have big: "999 < nudge_interval \<lparr>daily_limit = 2000, nudge_interval = 1000, hard_block = Some False\<rparr>"
    by simp
  have m: "current_session_minutes (1000 * minute) 0 = 1000"
    "total_today scenario_long ''youtube.com'' (1000 * minute) 0 = 1000"
    "minutes_since_last_nudge scenario_long (1000 * minute) = 999"
    unfolding scenario_long_eq
    by (simp_all add: current_session_minutes_def total_today_def minutes_since_last_nudge_def
        minutes_between_def total_seconds_def float_div_def float_add_def dict_get_def minute_def)
  from o m scenario_long_quiet sentinel_blocks_nudge [OF o big] show ?thesis by blast
qed

section \<open>The accumulator on a clock that does not run backwards\<close>

lemma update_values:
  "list_all (\<lambda>(k, v). P v) al \<Longrightarrow> P w \<Longrightarrow> list_all (\<lambda>(k, v). P v) (AList.update k' w al)"
  by (induction al) auto

lemma dict_get_nonneg:
  "list_all (\<lambda>(k, v). (0::rat) \<le> v) al \<Longrightarrow> 0 \<le> dict_get al k 0"
  by (auto simp: dict_get_def list_all_iff split: option.splits dest!: map_of_SomeD)

lemma reset_daily_stats_cases:
  "daily_stats (reset_daily_stats s now) = daily_stats s \<or> daily_stats (reset_daily_stats s now) = []"
  by (simp add: reset_daily_stats_def)

lemma nonneg_reset: "nonneg_stats s \<Longrightarrow> nonneg_stats (reset_daily_stats s now)"
  by (simp add: nonneg_stats_def reset_daily_stats_def)

lemma clock_bound_reset [simp]: "clock_bound t (reset_daily_stats s now) = clock_bound t s"
  by (simp add: clock_bound_def)

lemma nonneg_end_session:
  assumes "nonneg_stats s" and "clock_bound t s" and "t \<le> now"
  shows "nonneg_stats (end_session s now)"
proof (cases "\<exists>site started. current_site s = Some site \<and> site \<noteq> [] \<and> session_start s = Some started")
  case True
  then obtain site started where o: "current_site s = Some site" "site \<noteq> []"
    "session_start s = Some started" by blast
  from assms(2,3) o(3) have "started \<le> now" by (simp add: clock_bound_def)
  then have d: "0 \<le> minutes_between now started" by (rule minutes_between_nonneg)
  from assms(1) have "0 \<le> dict_get (daily_stats s) site 0"
    by (simp add: nonneg_stats_def dict_get_nonneg)
  with d have "0 \<le> float_add (dict_get (daily_stats s) site 0) (minutes_between now started)"
    by (intro float_add_nonneg)
  with assms(1) d show ?thesis
    unfolding end_session_closes [OF o] by (simp add: nonneg_stats_def update_values)
next
  case False
  then have "end_session s now = s"
    by (auto simp: end_session_def split: option.splits)
  with assms(1) show ?thesis by simp
qed

lemma end_session_fields [simp]:
  "last_nudge_time (end_session s now) = last_nudge_time s"
  "tracked_sites (end_session s now) = tracked_sites s"
  "last_reset (end_session s now) = last_reset s"
  by (simp_all add: end_session_def Let_def split: option.splits)

lemma clock_bound_end_session:
  "clock_bound t s \<Longrightarrow> clock_bound t (end_session s now)"
  by (auto simp: clock_bound_def end_session_def Let_def split: option.splits)

lemma clock_bound_mono: "clock_bound t s \<Longrightarrow> t \<le> t' \<Longrightarrow> clock_bound t' s"
  by (auto simp: clock_bound_def split: option.splits)

lemma steady_step:
  assumes "nonneg_stats s" and "clock_bound t s" and "t \<le> now"
  shows "nonneg_stats (fst (update_session s d now)) \<and> clock_bound now (fst (update_session s d now))"
proof -
  let ?s1 = "reset_daily_stats s now"
  have n1: "nonneg_stats ?s1" using assms(1) by (rule nonneg_reset)
  have b1: "clock_bound t ?s1" using assms(2) by simp
  have b1': "clock_bound now ?s1" using b1 assms(3) by (rule clock_bound_mono)
  show ?thesis
  proof (cases rule: update_session_cases [of d s])
    case arrive
    with n1 b1' show ?thesis
      by (simp add: update_session_open nonneg_stats_def clock_bound_def)
  next
    case idle
    with n1 b1' show ?thesis by (simp add: update_session_idle)
  next
    case switch
    have n2: "nonneg_stats (end_session ?s1 now)" using n1 b1 assms(3) by (rule nonneg_end_session)
    have b2: "clock_bound now (end_session ?s1 now)" using b1' by (rule clock_bound_end_session)
    from switch n2 b2 show ?thesis
      by (simp add: update_session_switch nonneg_stats_def clock_bound_def)
  next
    case ongoing
    show ?thesis
    proof (cases "check_for_nudge ?s1 now")
      case (Inl err)
      with ongoing n1 b1' show ?thesis by (simp add: update_session_ongoing)
    next
      case (Inr p)
      obtain s2 r where p: "p = (s2, r)" by (cases p)
      from check_for_nudge_state [OF Inr [unfolded p]] ongoing Inr p n1 b1' show ?thesis
        by (auto simp: update_session_ongoing nonneg_stats_def clock_bound_def)
    qed
  qed
qed

lemma steady_loop:
  "monotone_clock t polls \<Longrightarrow> nonneg_stats s \<Longrightarrow> clock_bound t s \<Longrightarrow>
   nonneg_stats (monitor_loop s polls) \<and> clock_bound (last_clock t polls) (monitor_loop s polls)"
proof (induction polls arbitrary: t s)
  case Nil
  then show ?case by simp
next
  case (Cons p polls)
  obtain d now where p: "p = (d, now)" by (cases p)
  from Cons.prems have le: "t \<le> now" and rest: "monotone_clock now polls" by (simp_all add: p)
  from steady_step [OF Cons.prems(2,3) le, of d] Cons.IH [OF rest] show ?case
    by (simp add: p)
qed

lemma steady_initial: "nonneg_stats (initial_monitor sites t0) \<and> clock_bound t (initial_monitor sites t0)"
  by (simp add: nonneg_stats_def clock_bound_def initial_monitor_def)

text \<open>
  Claim C3, as the code has it. \<^verbatim>\<open>_end_session\<close> adds the difference of the two clock
  readings to the site's total as it is (a float addition), with no clamping. When the clock never runs
  backwards from the construction of the monitor on, every total of the day and every
  duration of a closed session is non-negative in every state the monitor reaches.
\<close>

theorem totals_nonneg_on_monotone_clock:
  "(current_site s = Some site \<and> site \<noteq> [] \<and> session_start s = Some started \<longrightarrow>
      dict_get (daily_stats (end_session s now)) site 0 =
        float_add (dict_get (daily_stats s) site 0) (minutes_between now started)) \<and>
   (monotone_clock t0 polls \<longrightarrow>
      (\<forall>(site, v) \<in> set (daily_stats (monitor_loop (initial_monitor sites t0) polls)). 0 \<le> v) \<and>
      (\<forall>site d. Ended_session site d \<in> set (console (monitor_loop (initial_monitor sites t0) polls))
          \<longrightarrow> 0 \<le> d))"
proof (intro conjI impI)
  assume "current_site s = Some site \<and> site \<noteq> [] \<and> session_start s = Some started"
  then have o: "current_site s = Some site" "site \<noteq> []" "session_start s = Some started"
    by simp_all
  show "dict_get (daily_stats (end_session s now)) site 0 =
        float_add (dict_get (daily_stats s) site 0) (minutes_between now started)"
    unfolding end_session_closes [OF o] by (simp add: dict_get_def update_conv')
next
  assume m: "monotone_clock t0 polls"
  from steady_loop [OF m] steady_initial
  have n: "nonneg_stats (monitor_loop (initial_monitor sites t0) polls)" by blast
  then show "\<forall>(site, v) \<in> set (daily_stats (monitor_loop (initial_monitor sites t0) polls)). 0 \<le> v"
    by (simp add: nonneg_stats_def list_all_iff)
  from n show "\<forall>site d. Ended_session site d \<in> set (console (monitor_loop (initial_monitor sites t0) polls))
          \<longrightarrow> 0 \<le> d"
    by (auto simp: nonneg_stats_def list_all_iff)
qed

lemma scenario_A_closed:
  "current_site scenario_A = Some ''youtube.com'' \<and> ''youtube.com'' \<noteq> [] \<and>
   session_start scenario_A = Some 0 \<and>
   dict_get (daily_stats (end_session scenario_A (10 * minute))) ''youtube.com'' 0 = 10 \<and>
   monotone_clock 0 [(Some ''youtube.com'', 0), (None, 10 * minute)] \<and>
   daily_stats (monitor_loop (initial_monitor default_sites 0)
     [(Some ''youtube.com'', 0), (None, 10 * minute)]) = [(''youtube.com'', 10)]"
  by (simp add: scenario_A_eq initial_monitor_def default_sites_def poll_defs)

theorem totals_nonneg_on_monotone_clock_witness:
  "current_site scenario_A = Some ''youtube.com'' \<and> ''youtube.com'' \<noteq> [] \<and>
   session_start scenario_A = Some 0 \<and>
   dict_get (daily_stats (end_session scenario_A (10 * minute))) ''youtube.com'' 0 = 10 \<and>
   monotone_clock 0 [(Some ''youtube.com'', 0), (None, 10 * minute)] \<and>
   daily_stats (monitor_loop (initial_monitor default_sites 0)
     [(Some ''youtube.com'', 0), (None, 10 * minute)]) = [(''youtube.com'', 10)]"
  using totals_nonneg_on_monotone_clock [of scenario_A "''youtube.com''" 0 "10 * minute" 0
      "[(Some ''youtube.com'', 0), (None, 10 * minute)]" default_sites]
  by - (rule scenario_A_closed)

text \<open>
  The claim as stated is false: the session opens at minute 10, the clock then reads
  minute 5 when the site is left, and the duration of -5 minutes goes into the total.
\<close>

theorem clamping_counterexample:
  "monotone_clock 0 [(Some ''youtube.com'', 10 * minute)] \<and>
   \<not> monotone_clock 0 [(Some ''youtube.com'', 10 * minute), (None, 5 * minute)] \<and>
   daily_stats scenario_clock_back = [(''youtube.com'', - 5)] \<and>
   console scenario_clock_back =
     [Started_viewing ''youtube.com'', Ended_session ''youtube.com'' (- 5),
      Total_today ''youtube.com'' (- 5)]"
  by (simp add: scenario_clock_back_def initial_monitor_def default_sites_def poll_defs)

section \<open>The last nudge across sessions\<close>

lemma monitor_loop_append:
  "monitor_loop s (polls @ later) = monitor_loop (monitor_loop s polls) later"
  by (induction polls arbitrary: s) auto

lemma monotone_clock_append:
  "monotone_clock t (polls @ [(d, now)]) = (monotone_clock t polls \<and> last_clock t polls \<le> now)"
  by (induction polls arbitrary: t) auto

lemma site_change:
  assumes "current_site (fst (update_session s d now)) = Some site"
    and "current_site (fst (update_session s d now)) \<noteq> current_site s"
  shows "d = Some site \<and> session_start (fst (update_session s d now)) = Some now \<and>
         last_nudge_time (fst (update_session s d now)) = last_nudge_time s"
proof (cases rule: update_session_cases [of d s])
  case arrive
  with assms show ?thesis by (simp add: update_session_open)
next
  case idle
  with assms show ?thesis by (simp add: update_session_idle)
next
  case switch
  with assms show ?thesis
    by (auto simp: update_session_switch end_session_def Let_def split: if_splits option.splits)
next
  case ongoing
  show ?thesis
  proof (cases "check_for_nudge (reset_daily_stats s now) now")
    case (Inl err)
    with ongoing assms show ?thesis by (simp add: update_session_ongoing)
  next
    case (Inr p)
    obtain s2 r where p: "p = (s2, r)" by (cases p)
    from check_for_nudge_state [OF Inr [unfolded p]] ongoing Inr p assms show ?thesis
      by (auto simp: update_session_ongoing)
  qed
qed

lemma stale_nudge_gate:
  assumes "session_start s = Some started"
    and "case last_nudge_time s of None \<Rightarrow> I \<le> 999 | Some l \<Rightarrow> l \<le> started"
  shows "(I \<le> current_session_minutes now started \<and> I \<le> minutes_since_last_nudge s now) =
         (I \<le> current_session_minutes now started)"
proof (cases "last_nudge_time s")
  case None
  with assms(2) show ?thesis by (simp add: minutes_since_last_nudge_def)
next
  case (Some l)
  with assms(2) have "l \<le> started" by simp
  then have "minutes_between now started \<le> minutes_between now l"
    by (rule minutes_between_antimono)
  with Some show ?thesis
    by (auto simp: minutes_since_last_nudge_def current_session_minutes_def)
qed

text \<open>
  Claim C4, as the code has it. When the current site changes, \<^verbatim>\<open>last_nudge_time\<close>
  is not reset: the new session starts with the instant of the last nudge of any
  earlier session. On a clock that never runs backwards that instant is not after the
  start of the new session, so for the new session the two gates of a nudge reduce to
  session_minutes \<ge> nudge_interval (when no nudge has fired yet, for an interval of
  at most 999 minutes).
\<close>

theorem last_nudge_kept_on_site_change:
  assumes clock: "monotone_clock t0 (polls @ [(d, now)])"
    and opened: "current_site (monitor_loop (initial_monitor sites t0) (polls @ [(d, now)])) = Some site"
    and changed: "current_site (monitor_loop (initial_monitor sites t0) (polls @ [(d, now)])) \<noteq>
                  current_site (monitor_loop (initial_monitor sites t0) polls)"
  shows "last_nudge_time (monitor_loop (initial_monitor sites t0) (polls @ [(d, now)])) =
           last_nudge_time (monitor_loop (initial_monitor sites t0) polls) \<and>
         session_start (monitor_loop (initial_monitor sites t0) (polls @ [(d, now)])) = Some now \<and>
         (\<forall>I now'. I \<le> 999 \<or>
              last_nudge_time (monitor_loop (initial_monitor sites t0) (polls @ [(d, now)])) \<noteq> None \<longrightarrow>
            (I \<le> current_session_minutes now' now \<and>
             I \<le> minutes_since_last_nudge
                    (monitor_loop (initial_monitor sites t0) (polls @ [(d, now)])) now') =
            (I \<le> current_session_minutes now' now))"
proof -
  let ?s = "monitor_loop (initial_monitor sites t0) polls"
  let ?s' = "monitor_loop (initial_monitor sites t0) (polls @ [(d, now)])"
  have s': "?s' = fst (update_session ?s d now)" by (simp add: monitor_loop_append)
  from clock have m: "monotone_clock t0 polls" and le: "last_clock t0 polls \<le> now"
    by (simp_all add: monotone_clock_append)
  from steady_loop [OF m] steady_initial have "clock_bound (last_clock t0 polls) ?s" by blast
  then have b: "clock_bound now ?s" using le by (rule clock_bound_mono)
  have "d = Some site \<and> session_start (fst (update_session ?s d now)) = Some now \<and>
      last_nudge_time (fst (update_session ?s d now)) = last_nudge_time ?s"
    using opened changed unfolding s' by (rule site_change)
  then have c: "session_start ?s' = Some now" "last_nudge_time ?s' = last_nudge_time ?s"
    unfolding s' by blast+
  have gate: "(I \<le> current_session_minutes now' now \<and> I \<le> minutes_since_last_nudge ?s' now') =
            (I \<le> current_session_minutes now' now)"
    if "I \<le> 999 \<or> last_nudge_time ?s' \<noteq> None" for I now'
  proof (rule stale_nudge_gate [OF c(1)])
    from that b c(2) show "case last_nudge_time ?s' of None \<Rightarrow> I \<le> 999 | Some l \<Rightarrow> l \<le> now"
      by (auto simp: clock_bound_def split: option.splits)
  qed
  from c gate show ?thesis by blast
qed

lemma scenario_switch_eq:
  "scenario_switch =
     \<lparr>tracked_sites = default_sites, current_site = Some ''reddit.com'',
      session_start = Some (16 * minute), last_nudge_time = Some (15 * minute),
      daily_stats = [(''youtube.com'', 16)], last_reset = 0,
      console = [Started_viewing ''youtube.com'', Ended_session ''youtube.com'' 16,
                 Total_today ''youtube.com'' 16, Switched_to ''reddit.com'']\<rparr>"
  by (simp add: scenario_switch_def initial_monitor_def default_sites_def poll_defs)

lemma scenario_switch_run:
  "monotone_clock 0 ([(Some ''youtube.com'', 0), (Some ''youtube.com'', 15 * minute)] @
     [(Some ''reddit.com'', 16 * minute)]) \<and>
   current_site (monitor_loop (initial_monitor default_sites 0)
     ([(Some ''youtube.com'', 0), (Some ''youtube.com'', 15 * minute)] @
      [(Some ''reddit.com'', 16 * minute)])) = Some ''reddit.com'' \<and>
   current_site (monitor_loop (initial_monitor default_sites 0)
     ([(Some ''youtube.com'', 0), (Some ''youtube.com'', 15 * minute)] @
      [(Some ''reddit.com'', 16 * minute)])) \<noteq>
   current_site (monitor_loop (initial_monitor default_sites 0)
     [(Some ''youtube.com'', 0), (Some ''youtube.com'', 15 * minute)]) \<and>
   last_nudge_time (monitor_loop (initial_monitor default_sites 0)
     ([(Some ''youtube.com'', 0), (Some ''youtube.com'', 15 * minute)] @
      [(Some ''reddit.com'', 16 * minute)])) = Some (15 * minute)"
  by (simp add: initial_monitor_def default_sites_def poll_defs)

theorem last_nudge_kept_on_site_change_witness:
  "monotone_clock 0 ([(Some ''youtube.com'', 0), (Some ''youtube.com'', 15 * minute)] @
     [(Some ''reddit.com'', 16 * minute)]) \<and>
   current_site (monitor_loop (initial_monitor default_sites 0)
     ([(Some ''youtube.com'', 0), (Some ''youtube.com'', 15 * minute)] @
      [(Some ''reddit.com'', 16 * minute)])) = Some ''reddit.com'' \<and>
   current_site (monitor_loop (initial_monitor default_sites 0)
     ([(Some ''youtube.com'', 0), (Some ''youtube.com'', 15 * minute)] @
      [(Some ''reddit.com'', 16 * minute)])) \<noteq>
   current_site (monitor_loop (initial_monitor default_sites 0)
     [(Some ''youtube.com'', 0), (Some ''youtube.com'', 15 * minute)]) \<and>
   last_nudge_time (monitor_loop (initial_monitor default_sites 0)
     ([(Some ''youtube.com'', 0), (Some ''youtube.com'', 15 * minute)] @
      [(Some ''reddit.com'', 16 * minute)])) = Some (15 * minute)"
  using last_nudge_kept_on_site_change [of 0
      "[(Some ''youtube.com'', 0), (Some ''youtube.com'', 15 * minute)]"
      "Some ''reddit.com''" "16 * minute" default_sites "''reddit.com''"]
  by - (rule scenario_switch_run)

text \<open>
  The claim as stated is false: after the nudge of minute 15 on youtube.com and the
  switch to reddit.com at minute 16, \<^verbatim>\<open>last_nudge_time\<close> is still minute 15.
\<close>

theorem nudge_reset_counterexample:
  "current_site (monitor_loop (initial_monitor default_sites 0)
     [(Some ''youtube.com'', 0), (Some ''youtube.com'', 15 * minute)]) = Some ''youtube.com'' \<and>
   current_site scenario_switch = Some ''reddit.com'' \<and>
   session_start scenario_switch = Some (16 * minute) \<and>
   last_nudge_time scenario_switch = Some (15 * minute)"
  unfolding scenario_switch_eq
  by (simp add: initial_monitor_def default_sites_def poll_defs)

section \<open>Loading the configuration\<close>

text \<open>
  Claim C9, as the code has it. \<^verbatim>\<open>load_config\<close> validates nothing: a configuration that
  has the \<^verbatim>\<open>tracked_sites\<close> key is taken as it is, whatever its limits and
  intervals, and the only error is the missing key. The default configuration, used
  when the file is absent, has a positive daily limit and nudge interval for every
  site.
\<close>

theorem load_config_unvalidated:
  "(tracked_sites_key cfg = Some sites \<longrightarrow> load_config (Some cfg) = Inr (Some cfg, cfg, sites)) \<and>
   (tracked_sites_key cfg = None \<longrightarrow> load_config (Some cfg) = Inl KeyError) \<and>
   load_config None = Inr (Some default_config, default_config, default_sites) \<and>
   (\<forall>(site, c) \<in> set default_sites. valid_site_config c)"
  by (simp add: load_config_def default_config_def)
     (simp add: default_sites_def valid_site_config_def)

lemma unchecked_loaded:
  "tracked_sites_key unchecked_config = Some unchecked_sites \<and>
   load_config (Some unchecked_config) = Inr (Some unchecked_config, unchecked_config, unchecked_sites) \<and>
   tracked_sites_key \<lparr>tracked_sites_key = None, work_hours_key = None\<rparr> = None \<and>
   valid_site_config \<lparr>daily_limit = 60, nudge_interval = 15, hard_block = Some False\<rparr>"
  by (simp add: load_config_def unchecked_config_def valid_site_config_def)

theorem load_config_unvalidated_witness:
  "tracked_sites_key unchecked_config = Some unchecked_sites \<and>
   load_config (Some unchecked_config) = Inr (Some unchecked_config, unchecked_config, unchecked_sites) \<and>
   tracked_sites_key \<lparr>tracked_sites_key = None, work_hours_key = None\<rparr> = None \<and>
   valid_site_config \<lparr>daily_limit = 60, nudge_interval = 15, hard_block = Some False\<rparr>"
  using load_config_unvalidated [of unchecked_config unchecked_sites]
  by - (rule unchecked_loaded)

text \<open>
  The claim as stated is false: a file with daily limit 0 and nudge interval -5 is
  loaded without complaint.
\<close>

theorem load_config_counterexample:
  "load_config (Some unchecked_config) = Inr (Some unchecked_config, unchecked_config, unchecked_sites) \<and>
   map_of unchecked_sites ''youtube.com'' =
     Some \<lparr>daily_limit = 0, nudge_interval = - 5, hard_block = Some False\<rparr> \<and>
   \<not> valid_site_config \<lparr>daily_limit = 0, nudge_interval = - 5, hard_block = Some False\<rparr>"
  by (simp add: load_config_def unchecked_config_def unchecked_sites_def valid_site_config_def)

section \<open>Sessions opened and closed\<close>

lemma counts_reset [simp]:
  "sessions_opened (reset_daily_stats s now) = sessions_opened s"
  "sessions_closed (reset_daily_stats s now) = sessions_closed s"
  by (simp_all add: sessions_opened_def sessions_closed_def)

lemma closed_step:
  assumes "paired s"
  shows "sessions_closed (fst (update_session s d now)) =
           sessions_closed s + (if current_site s \<noteq> None \<and> d \<noteq> current_site s then 1 else 0) \<and>
         sessions_opened (fst (update_session s d now)) =
           sessions_opened s + (if truthy d \<and> d \<noteq> current_site s then 1 else 0)"
proof (cases rule: update_session_cases [of d s])
  case arrive
  with assms show ?thesis
    by (auto simp: update_session_open sessions_opened_def sessions_closed_def paired_def truthy_def
        split: option.splits)
next
  case idle
  with assms show ?thesis
    by (auto simp: update_session_idle paired_def truthy_def split: option.splits)
next
  case switch
  from switch(1) assms obtain site started where
    "current_site s = Some site" "site \<noteq> []" "session_start s = Some started"
    by (auto simp: truthy_def paired_def split: option.splits)
  then have o: "current_site (reset_daily_stats s now) = Some site" "site \<noteq> []"
    "session_start (reset_daily_stats s now) = Some started"
    by simp_all
  from switch o(1) show ?thesis
    unfolding update_session_switch [OF switch] end_session_closes [OF o]
    by (simp add: sessions_opened_def sessions_closed_def)
next
  case ongoing
  show ?thesis
  proof (cases "check_for_nudge (reset_daily_stats s now) now")
    case (Inl err)
    with ongoing show ?thesis by (simp add: update_session_ongoing)
  next
    case (Inr p)
    obtain s2 r where p: "p = (s2, r)" by (cases p)
    from check_for_nudge_state [OF Inr [unfolded p]] ongoing Inr p show ?thesis
      by (auto simp: update_session_ongoing sessions_opened_def sessions_closed_def)
  qed
qed

lemma current_site_step:
  assumes "paired s"
  shows "current_site (fst (update_session s d now)) =
           (if truthy d then d else if d = current_site s then current_site s else None)"
proof (cases rule: update_session_cases [of d s])
  case arrive
  then show ?thesis by (simp add: update_session_open)
next
  case idle
  with assms show ?thesis
    by (auto simp: update_session_idle paired_def truthy_def split: option.splits)
next
  case switch
  from switch(1) assms obtain site started where
    "current_site s = Some site" "site \<noteq> []" "session_start s = Some started"
    by (auto simp: truthy_def paired_def split: option.splits)
  then have o: "current_site (reset_daily_stats s now) = Some site" "site \<noteq> []"
    "session_start (reset_daily_stats s now) = Some started"
    by simp_all
  from switch show ?thesis
    unfolding update_session_switch [OF switch] end_session_closes [OF o]
    by simp
next
  case ongoing
  show ?thesis
  proof (cases "check_for_nudge (reset_daily_stats s now) now")
    case (Inl err)
    with ongoing show ?thesis by (simp add: update_session_ongoing)
  next
    case (Inr p)
    obtain s2 r where p: "p = (s2, r)" by (cases p)
    from check_for_nudge_state [OF Inr [unfolded p]] ongoing Inr p show ?thesis
      by (auto simp: update_session_ongoing)
  qed
qed

lemma balanced_step:
  assumes "paired s" and "balanced s"
  shows "balanced (fst (update_session s d now))"
  using assms closed_step [OF assms(1), of d now] current_site_step [OF assms(1), of d now]
  by (auto simp: balanced_def paired_def truthy_def split: option.splits if_splits)

lemma balanced_loop: "paired s \<Longrightarrow> balanced s \<Longrightarrow> balanced (monitor_loop s polls)"
  by (induction polls arbitrary: s) (auto simp: balanced_step paired_step)

lemma quit_app_monitor: "tray_monitor (fst (quit_app app now)) = tray_monitor app"
  by (simp add: quit_app_def split: sum.splits)

lemma scenario_idle_eq:
  "scenario_idle =
     \<lparr>tracked_sites = default_sites, current_site = None, session_start = None,
      last_nudge_time = None, daily_stats = [(''youtube.com'', 10)], last_reset = 0,
      console = [Started_viewing ''youtube.com'', Ended_session ''youtube.com'' 10,
                 Total_today ''youtube.com'' 10]\<rparr>"
  by (simp add: scenario_idle_def initial_monitor_def default_sites_def poll_defs)

text \<open>
  Claim C8, as the code has it. In every state the monitor reaches, every opened
  session but the one now open has been closed exactly once, and a poll closes a
  session exactly when one is open and the detector reports something else; on a clock
  that never runs backwards every closed session has a non-negative duration. There
  is no flush at shutdown: \<^verbatim>\<open>quit_app\<close> takes the final summary from the monitor as it
  stands and leaves the monitor, and so a session that is still open, untouched.
\<close>

theorem session_closure:
  "sessions_opened (monitor_loop (initial_monitor sites t0) polls) =
     sessions_closed (monitor_loop (initial_monitor sites t0) polls) +
     (if current_site (monitor_loop (initial_monitor sites t0) polls) = None then 0 else 1) \<and>
   sessions_closed (fst (update_session (monitor_loop (initial_monitor sites t0) polls) d now)) =
     sessions_closed (monitor_loop (initial_monitor sites t0) polls) +
     (if current_site (monitor_loop (initial_monitor sites t0) polls) \<noteq> None \<and>
         d \<noteq> current_site (monitor_loop (initial_monitor sites t0) polls) then 1 else 0) \<and>
   (monotone_clock t0 polls \<longrightarrow>
      (\<forall>site m. Ended_session site m \<in> set (console (monitor_loop (initial_monitor sites t0) polls))
          \<longrightarrow> 0 \<le> m)) \<and>
   tray_monitor (fst (quit_app app now)) = tray_monitor app"
proof (intro conjI impI)
  let ?S = "monitor_loop (initial_monitor sites t0) polls"
  have p0: "paired (initial_monitor sites t0)" by (simp add: paired_def initial_monitor_def)
  then have p: "paired ?S" by (rule paired_loop)
  have "balanced (initial_monitor sites t0)"
    by (simp add: balanced_def sessions_opened_def sessions_closed_def initial_monitor_def)
  with p0 have "balanced ?S" by (rule balanced_loop)
  then show "sessions_opened ?S = sessions_closed ?S + (if current_site ?S = None then 0 else 1)"
    by (simp add: balanced_def)
  from closed_step [OF p, of d now]
  show "sessions_closed (fst (update_session ?S d now)) =
     sessions_closed ?S + (if current_site ?S \<noteq> None \<and> d \<noteq> current_site ?S then 1 else 0)"
    by blast
  show "tray_monitor (fst (quit_app app now)) = tray_monitor app" by (rule quit_app_monitor)
next
  assume m: "monotone_clock t0 polls"
  from steady_loop [OF m] steady_initial
  have "nonneg_stats (monitor_loop (initial_monitor sites t0) polls)" by blast
  then show "\<forall>site m. Ended_session site m \<in> set (console (monitor_loop (initial_monitor sites t0) polls))
          \<longrightarrow> 0 \<le> m"
    by (auto simp: nonneg_stats_def list_all_iff)
qed

lemma scenario_idle_counts:
  "monotone_clock 0 [(Some ''youtube.com'', 0), (None, 10 * minute)] \<and>
   sessions_opened (monitor_loop (initial_monitor default_sites 0)
     [(Some ''youtube.com'', 0), (None, 10 * minute)]) = 1 \<and>
   sessions_closed (monitor_loop (initial_monitor default_sites 0)
     [(Some ''youtube.com'', 0), (None, 10 * minute)]) = 1 \<and>
   console (monitor_loop (initial_monitor default_sites 0)
     [(Some ''youtube.com'', 0), (None, 10 * minute)]) =
     [Started_viewing ''youtube.com'', Ended_session ''youtube.com'' 10,
      Total_today ''youtube.com'' 10]"
  unfolding scenario_idle_def [symmetric] scenario_idle_eq
  by (simp add: sessions_opened_def sessions_closed_def minute_def)

theorem session_closure_witness:
  "monotone_clock 0 [(Some ''youtube.com'', 0), (None, 10 * minute)] \<and>
   sessions_opened (monitor_loop (initial_monitor default_sites 0)
     [(Some ''youtube.com'', 0), (None, 10 * minute)]) = 1 \<and>
   sessions_closed (monitor_loop (initial_monitor default_sites 0)
     [(Some ''youtube.com'', 0), (None, 10 * minute)]) = 1 \<and>
   console (monitor_loop (initial_monitor default_sites 0)
     [(Some ''youtube.com'', 0), (None, 10 * minute)]) =
     [Started_viewing ''youtube.com'', Ended_session ''youtube.com'' 10,
      Total_today ''youtube.com'' 10]"
  using session_closure [of default_sites 0 "[(Some ''youtube.com'', 0), (None, 10 * minute)]"]
  by - (rule scenario_idle_counts)

text \<open>
  The claim as stated is false: with the session of scenario A open, quitting emits an
  empty final summary; the session has been opened, is never closed, and its minutes
  appear nowhere.
\<close>

theorem flush_counterexample:
  "sessions_opened scenario_A = 1 \<and> sessions_closed scenario_A = 0 \<and>
   current_site scenario_A = Some ''youtube.com'' \<and>
   quit_app \<lparr>tray_monitor = scenario_A, running = True\<rparr> (10 * minute) =
     (\<lparr>tray_monitor = scenario_A, running = False\<rparr>, Inr (0, []))"
  by (simp add: scenario_A_eq sessions_opened_def sessions_closed_def quit_app_def
      get_daily_summary_def date_of_def minute_def)

section \<open>The totals of the day\<close>

lemma ended_durations_append [simp]:
  "ended_durations site (ls @ ls') = ended_durations site ls @ ended_durations site ls'"
  by (induction site ls rule: ended_durations.induct) simp_all



lemma last_reset_step [simp]: "last_reset (fst (update_session s d now)) = date_of now"
proof (cases rule: update_session_cases [of d s])
  case arrive
  then show ?thesis by (simp add: update_session_open)
next
  case idle
  then show ?thesis by (simp add: update_session_idle)
next
  case switch
  then show ?thesis by (simp add: update_session_switch)
next
  case ongoing
  show ?thesis
  proof (cases "check_for_nudge (reset_daily_stats s now) now")
    case (Inl err)
    with ongoing show ?thesis by (simp add: update_session_ongoing)
  next
    case (Inr p)
    obtain s2 r' where p: "p = (s2, r')" by (cases p)
    from check_for_nudge_state [OF Inr [unfolded p]] ongoing Inr p show ?thesis
      by (auto simp: update_session_ongoing)
  qed
qed





lemma summary_sites_other:
  "summary_sites sites stats acc = Inr out \<Longrightarrow> site \<notin> fst ` set stats \<Longrightarrow>
   map_of out site = map_of acc site"
proof (induction stats arbitrary: acc)
  case Nil
  then show ?case by simp
next
  case (Cons kv stats)
  obtain k v where kv: "kv = (k, v)" by (cases kv)
  from Cons.prems show ?case
    by (auto simp: kv update_conv' split: option.splits dest!: Cons.IH)
qed

lemma summary_sites_time:
  "summary_sites sites stats acc = Inr out \<Longrightarrow> distinct (map fst stats) \<Longrightarrow>
   map_of stats site = Some m \<Longrightarrow> \<exists>e. map_of out site = Some e \<and> time_spent e = m"
proof (induction stats arbitrary: acc)
  case Nil
  then show ?case by simp
next
  case (Cons kv stats)
  obtain k v where kv: "kv = (k, v)" by (cases kv)
  show ?case
  proof (cases "site = k")
    case True
    with Cons.prems kv have m: "m = v" and fresh: "site \<notin> fst ` set stats" by auto
    from Cons.prems(1) obtain c where c: "map_of sites k = Some c"
      and rest: "summary_sites sites stats
            (AList.update k
               \<lparr>time_spent = v, limit = daily_limit c,
                percentage = (if daily_limit c > 0 then float_mul (float_div v (daily_limit c)) 100 else 0),
                over_limit = (v > daily_limit c)\<rparr> acc) = Inr out"
      by (auto simp: kv split: option.splits)
    from summary_sites_other [OF rest fresh] True m show ?thesis
      by (simp add: update_conv')
  next
    case False
    with Cons.prems kv have "map_of stats site = Some m" "distinct (map fst stats)" by auto
    moreover from Cons.prems(1) obtain acc' where "summary_sites sites stats acc' = Inr out"
      by (auto simp: kv split: option.splits)
    ultimately show ?thesis using Cons.IH by blast
  qed
qed

lemma summary_time_spent:
  assumes "get_daily_summary s now = Inr (day, out)" and "distinct_stats s"
  shows "(case map_of out site of None \<Rightarrow> 0 | Some e \<Rightarrow> time_spent e) =
         dict_get (daily_stats s) site 0"
proof -
  from assms(1) have out: "summary_sites (tracked_sites s) (daily_stats s) [] = Inr out"
    by (auto simp: get_daily_summary_def split: sum.splits)
  show ?thesis
  proof (cases "map_of (daily_stats s) site")
    case None
    then have "site \<notin> fst ` set (daily_stats s)" by (simp add: map_of_eq_None_iff)
    from summary_sites_other [OF out this] None show ?thesis by (simp add: dict_get_def)
  next
    case (Some m)
    from summary_sites_time [OF out assms(2) [unfolded distinct_stats_def] Some] Some
    show ?thesis by (auto simp: dict_get_def)
  qed
qed







section \<open>The date rollover\<close>

lemma reset_idem: "reset_daily_stats (reset_daily_stats s now) now = reset_daily_stats s now"
  by (rule reset_same_day) simp

lemma update_session_after_reset:
  "update_session (reset_daily_stats s now) d now = update_session s d now"
  by (simp only: update_session_def reset_idem)

lemma reset_forgets:
  "date_of now \<noteq> last_reset s \<Longrightarrow>
   reset_daily_stats (s\<lparr>daily_stats := stats\<rparr>) now = reset_daily_stats (s\<lparr>daily_stats := []\<rparr>) now"
  by (simp add: reset_daily_stats_def)

text \<open>
  The rollover check of \<^verbatim>\<open>update_session\<close>: on a poll that finds a new date, neither
  the state nor the result of the poll depends on the totals of the old date.
\<close>

lemma poll_forgets:
  assumes "date_of now \<noteq> last_reset s"
  shows "update_session (s\<lparr>daily_stats := stats\<rparr>) d now = update_session (s\<lparr>daily_stats := []\<rparr>) d now"
proof -
  have "update_session (s\<lparr>daily_stats := stats\<rparr>) d now =
        update_session (reset_daily_stats (s\<lparr>daily_stats := stats\<rparr>) now) d now"
    by (rule update_session_after_reset [symmetric])
  also have "\<dots> = update_session (reset_daily_stats (s\<lparr>daily_stats := []\<rparr>) now) d now"
    using reset_forgets [OF assms, of stats] by (rule arg_cong [where f = "\<lambda>x. update_session x d now"])
  also have "\<dots> = update_session (s\<lparr>daily_stats := []\<rparr>) d now"
    by (rule update_session_after_reset)
  finally show ?thesis .
qed

text \<open>
  \<^verbatim>\<open>get_daily_summary\<close> makes no rollover check: it reports the totals as they stand,
  under the date of the clock.
\<close>

lemma summary_as_it_stands:
  assumes "get_daily_summary s t = Inr (date, out)" and "distinct_stats s"
  shows "date = date_of t"
    and "(case map_of out site of None \<Rightarrow> 0 | Some e \<Rightarrow> time_spent e) =
         dict_get (daily_stats s) site 0"
proof -
  from assms(1) show "date = date_of t"
    by (auto simp: get_daily_summary_def split: sum.splits)
  from assms show "(case map_of out site of None \<Rightarrow> 0 | Some e \<Rightarrow> time_spent e) =
         dict_get (daily_stats s) site 0"
    by (rule summary_time_spent)
qed

text \<open>
  Claim C5. The claim has every operation on the accumulator, the daily summary
  included, make the rollover check, so that totals of a past date are never visible.
  In the code only \<^verbatim>\<open>update_session\<close> makes it. Failing input: the monitor has
  accumulated ten minutes on youtube.com on day 0 and no session is open; the summary is
  taken at minute 1445, which lies on day 1, before any poll of day 1 (the process was
  idle across midnight and is told to quit, say). By the claim, and by the docstring of
  \<^verbatim>\<open>get_daily_summary\<close> ("summary of today's activity"), the summary is that of day 1
  and has no minutes in it; the code returns the ten minutes of day 0 under the date of
  day 1. A poll at the same instant discards them, and the summary after it is empty.
\<close>

theorem summary_skips_rollover:
  "last_reset scenario_idle = 0 \<and>
   daily_stats scenario_idle = [(''youtube.com'', 10)] \<and>
   date_of (1445 * minute) = 1 \<and>
   get_daily_summary scenario_idle (1445 * minute) =
     Inr (1, [(''youtube.com'',
        \<lparr>time_spent = 10, limit = 60, percentage = float_mul (float_div 10 60) 100,
         over_limit = False\<rparr>)]) \<and>
   daily_stats (fst (update_session scenario_idle None (1445 * minute))) = [] \<and>
   get_daily_summary (fst (update_session scenario_idle None (1445 * minute))) (1445 * minute) =
     Inr (1, [])"
  unfolding scenario_idle_eq
  by (simp add: get_daily_summary_def default_sites_def update_session_def
      reset_daily_stats_def truthy_def date_of_def minute_def)

end
